theory Spec2Isabelle
  imports Complex_Main
begin

section \<open>Numbers\<close>

text \<open>
  The program computes in IEEE double precision through numpy. The embedding idealises
  a finite double as the real number it stands for (no rounding error, no overflow of a
  finite result, no distinction between the two zeros) and keeps the three special
  values apart, because numpy scalar arithmetic does not raise on a division by zero
  or on a square root or arcsine outside the domain: it warns and yields an infinity or
  a nan, and the program goes on. Only the conversion to a Python integer raises on
  them.
\<close>

datatype npfloat = Fin real | PInf | NInf | NaN

datatype py_error =
    ZeroDivisionError
  | ValueError
  | OverflowError
  | TypingError
  | NameError
  | IndexError

text \<open>
  A run either returns, raises, or feeds an infinity or a nan into an array operation.
  The arrays of the embedding hold finite numbers only, so in the last case the
  embedding stops with \<open>NonFinite\<close>; this says where the embedding ends, not that
  the program raises there.
\<close>

datatype stop = Raises py_error | NonFinite

definition inf_of_sign :: "real \<Rightarrow> npfloat" where
  "inf_of_sign s = (if 0 < s then PInf else if s < 0 then NInf else NaN)"

fun np_neg :: "npfloat \<Rightarrow> npfloat" where
  "np_neg (Fin x) = Fin (- x)"
| "np_neg PInf = NInf"
| "np_neg NInf = PInf"
| "np_neg NaN = NaN"

fun np_add :: "npfloat \<Rightarrow> npfloat \<Rightarrow> npfloat" where
  "np_add (Fin x) (Fin y) = Fin (x + y)"
| "np_add NaN _ = NaN"
| "np_add _ NaN = NaN"
| "np_add PInf NInf = NaN"
| "np_add NInf PInf = NaN"
| "np_add PInf _ = PInf"
| "np_add _ PInf = PInf"
| "np_add NInf _ = NInf"
| "np_add _ NInf = NInf"

definition np_sub :: "npfloat \<Rightarrow> npfloat \<Rightarrow> npfloat" where
  "np_sub a b = np_add a (np_neg b)"

fun np_sgn :: "npfloat \<Rightarrow> real" where
  "np_sgn (Fin x) = sgn x"
| "np_sgn PInf = 1"
| "np_sgn NInf = - 1"
| "np_sgn NaN = 0"

fun np_mul :: "npfloat \<Rightarrow> npfloat \<Rightarrow> npfloat" where
  "np_mul (Fin x) (Fin y) = Fin (x * y)"
| "np_mul NaN _ = NaN"
| "np_mul _ NaN = NaN"
| "np_mul a b = inf_of_sign (np_sgn a * np_sgn b)"

text \<open>
  Division of doubles: a finite number over zero is an infinity with the sign of the
  numerator (the zero divisors of the program are the integer 0 and square roots, taken
  as +0), zero over zero and infinity over infinity are nan, a finite number over an
  infinity is zero.
\<close>

fun np_div :: "npfloat \<Rightarrow> npfloat \<Rightarrow> npfloat" where
  "np_div (Fin x) (Fin y) = (if y = 0 then inf_of_sign x else Fin (x / y))"
| "np_div NaN _ = NaN"
| "np_div _ NaN = NaN"
| "np_div (Fin x) _ = Fin 0"
| "np_div a (Fin y) = inf_of_sign (np_sgn a * (if y < 0 then - 1 else 1))"
| "np_div _ _ = NaN"

fun np_sqrt :: "npfloat \<Rightarrow> npfloat" where
  "np_sqrt (Fin x) = (if x < 0 then NaN else Fin (sqrt x))"
| "np_sqrt PInf = PInf"
| "np_sqrt NInf = NaN"
| "np_sqrt NaN = NaN"

text \<open>\<open>np.arcsin\<close> is only applied to the quotient of two Python floats.\<close>

definition np_arcsin :: "real \<Rightarrow> npfloat" where
  "np_arcsin v = (if - 1 \<le> v \<and> v \<le> 1 then Fin (arcsin v) else NaN)"

fun np_sin :: "npfloat \<Rightarrow> npfloat" where
  "np_sin (Fin x) = Fin (sin x)"
| "np_sin _ = NaN"

fun np_cos :: "npfloat \<Rightarrow> npfloat" where
  "np_cos (Fin x) = Fin (cos x)"
| "np_cos _ = NaN"

text \<open>\<open>np.round\<close> rounds to the nearest integer, a tie to the even one.\<close>

definition round_half_even :: "real \<Rightarrow> int" where
  "round_half_even x =
     (let f = \<lfloor>x\<rfloor>; r = x - of_int f
      in if r < 1 / 2 then f
         else if 1 / 2 < r then f + 1
         else if even f then f else f + 1)"

fun np_round :: "npfloat \<Rightarrow> npfloat" where
  "np_round (Fin x) = Fin (of_int (round_half_even x))"
| "np_round a = a"

text \<open>
  \<open>np.int\<close> is Python's \<open>int\<close>: it truncates a finite double and raises
  OverflowError on an infinity, ValueError on a nan.
\<close>

fun np_int :: "npfloat \<Rightarrow> py_error + int" where
  "np_int (Fin x) = Inr (if 0 \<le> x then \<lfloor>x\<rfloor> else \<lceil>x\<rceil>)"
| "np_int PInf = Inl OverflowError"
| "np_int NInf = Inl OverflowError"
| "np_int NaN = Inl ValueError"

section \<open>The bowl transducer: \<open>vines/fields/transducers.py\<close>\<close>

type_synonym vec3 = "real \<times> real \<times> real"
type_synonym npvec3 = "npfloat \<times> npfloat \<times> npfloat"

subsection \<open>Source tiling (lines 14 to 35)\<close>

text \<open>
  One appended source: the entries appended to the lists \<open>x\<close>, \<open>y\<close> and \<open>z\<close>
  in one pass of the inner loop, kept together as a triple. \<open>phi\<close> is a Python float;
  its divisor \<open>M_phi\<close> is at least 1 inside \<open>range(0, M_phi)\<close>.
\<close>

definition source :: "real \<Rightarrow> npfloat \<Rightarrow> int \<Rightarrow> nat \<Rightarrow> npvec3" where
  "source focal_length theta M_phi n =
     (let phi = 2 * pi * real n / of_int M_phi
      in (np_mul (np_mul (Fin focal_length) (np_sin theta)) (np_cos (Fin phi)),
          np_mul (np_mul (Fin focal_length) (np_sin theta)) (np_sin (Fin phi)),
          np_mul (Fin focal_length) (np_cos theta)))"

definition band_theta :: "npfloat \<Rightarrow> npfloat \<Rightarrow> int \<Rightarrow> nat \<Rightarrow> npfloat" where
  "band_theta theta1 theta2 M_theta m =
     np_add (np_div (np_mul (np_sub theta2 theta1) (Fin (real m + 0.5)))
                    (Fin (of_int M_theta)))
            theta1"

text \<open>One pass of the outer loop: the sources of latitude band \<open>m\<close>.\<close>

definition band ::
  "real \<Rightarrow> npfloat \<Rightarrow> npfloat \<Rightarrow> int \<Rightarrow> npfloat \<Rightarrow> nat \<Rightarrow> py_error + npvec3 list" where
  "band focal_length theta1 theta2 M_theta d_phi m =
     (let theta = band_theta theta1 theta2 M_theta m
      in case np_int (np_round (np_div (np_mul (Fin (2 * pi)) (np_sin theta)) d_phi)) of
           Inl e \<Rightarrow> Inl e
         | Inr M_phi \<Rightarrow> Inr (map (source focal_length theta M_phi) [0..<nat M_phi]))"

fun bands ::
  "real \<Rightarrow> npfloat \<Rightarrow> npfloat \<Rightarrow> int \<Rightarrow> npfloat \<Rightarrow> nat list \<Rightarrow> py_error + npvec3 list" where
  "bands focal_length theta1 theta2 M_theta d_phi [] = Inr []"
| "bands focal_length theta1 theta2 M_theta d_phi (m # ms) =
     (case band focal_length theta1 theta2 M_theta d_phi m of
        Inl e \<Rightarrow> Inl e
      | Inr ss \<Rightarrow>
          (case bands focal_length theta1 theta2 M_theta d_phi ms of
             Inl e \<Rightarrow> Inl e
           | Inr rest \<Rightarrow> Inr (ss @ rest)))"

definition theta1_of :: "real \<Rightarrow> real \<Rightarrow> npfloat" where
  "theta1_of focal_length aperture_radius = np_arcsin (aperture_radius / focal_length)"

definition theta2_of :: "real \<Rightarrow> real \<Rightarrow> npfloat" where
  "theta2_of focal_length radius = np_arcsin (radius / focal_length)"

text \<open>The area element \<open>a\<close> of line 19, with \<open>r = 1.0\<close>.\<close>

definition area_element :: "real \<Rightarrow> real \<Rightarrow> int \<Rightarrow> real \<Rightarrow> npfloat" where
  "area_element focal_length radius n_elements aperture_radius =
     np_div (np_mul (Fin (2 * pi * 1\<^sup>2))
                    (np_sub (np_cos (theta1_of focal_length aperture_radius))
                            (np_cos (theta2_of focal_length radius))))
            (Fin (of_int n_elements))"

text \<open>The band count \<open>M_theta\<close> of line 21.\<close>

definition band_count :: "real \<Rightarrow> real \<Rightarrow> int \<Rightarrow> real \<Rightarrow> py_error + int" where
  "band_count focal_length radius n_elements aperture_radius =
     (let theta1 = theta1_of focal_length aperture_radius;
          theta2 = theta2_of focal_length radius;
          d = np_sqrt (area_element focal_length radius n_elements aperture_radius)
      in np_int (np_round (np_div (np_sub theta2 theta1) d)))"

text \<open>
  Lines 14 to 35. The quotients of line 14 and 15 are quotients of Python floats and
  raise on a zero focal length. The divisions of lines 22 and 23 are numpy divisions:
  with \<open>M_theta = 0\<close> they yield an infinity or a nan and the loop over
  \<open>range(0, M_theta)\<close> is empty. The counter \<open>n_count\<close> is never read and is left out.
\<close>

definition tiling :: "real \<Rightarrow> real \<Rightarrow> int \<Rightarrow> real \<Rightarrow> py_error + npvec3 list" where
  "tiling focal_length radius n_elements aperture_radius =
     (if focal_length = 0 then Inl ZeroDivisionError
      else
        let theta1 = theta1_of focal_length aperture_radius;
            theta2 = theta2_of focal_length radius;
            a = area_element focal_length radius n_elements aperture_radius
        in case band_count focal_length radius n_elements aperture_radius of
             Inl e \<Rightarrow> Inl e
           | Inr M_theta \<Rightarrow>
               (let d_theta = np_div (np_sub theta2 theta1) (Fin (of_int M_theta));
                    d_phi = np_div a d_theta
                in bands focal_length theta1 theta2 M_theta d_phi [0..<nat M_theta]))"

subsection \<open>Orientation (lines 37 to 47)\<close>

text \<open>Python's \<open>sub in s\<close> on strings: \<open>sub\<close> occurs in \<open>s\<close> as a contiguous piece.\<close>

fun startswith :: "string \<Rightarrow> string \<Rightarrow> bool" where
  "startswith s [] = True"
| "startswith [] (c # cs) = False"
| "startswith (x # xs) (c # cs) = (x = c \<and> startswith xs cs)"

fun py_in :: "string \<Rightarrow> string \<Rightarrow> bool" where
  "py_in sub [] = (sub = [])"
| "py_in sub (x # xs) = (startswith (x # xs) sub \<or> py_in sub xs)"

text \<open>
  After line 47 the three coordinate sequences are numpy arrays if one of the two
  branches ran, and still the Python lists of the tiling otherwise.
\<close>

datatype coords = PyList "npvec3 list" | NdArray "vec3 list"

fun finite3 :: "npvec3 \<Rightarrow> vec3 option" where
  "finite3 (Fin x, Fin y, Fin z) = Some (x, y, z)"
| "finite3 _ = None"

fun np_array :: "npvec3 list \<Rightarrow> stop + vec3 list" where
  "np_array [] = Inr []"
| "np_array (s # ss) =
     (case finite3 s of
        None \<Rightarrow> Inl NonFinite
      | Some v \<Rightarrow> (case np_array ss of Inl e \<Rightarrow> Inl e | Inr vs \<Rightarrow> Inr (v # vs)))"

definition orient_z :: "vec3 \<Rightarrow> vec3 \<Rightarrow> vec3" where
  "orient_z focus s = (case (focus, s) of ((f0, f1, f2), (x, y, z)) \<Rightarrow> (x, y, f2 - z))"

definition orient_x :: "vec3 \<Rightarrow> vec3 \<Rightarrow> vec3" where
  "orient_x focus s = (case (focus, s) of ((f0, f1, f2), (x, y, z)) \<Rightarrow> (f0 - z, - x, - y))"

definition orient :: "string \<Rightarrow> vec3 \<Rightarrow> npvec3 list \<Rightarrow> stop + coords" where
  "orient axis focus xyz =
     (if py_in axis ''z'' then
        (case np_array xyz of Inl e \<Rightarrow> Inl e | Inr vs \<Rightarrow> Inr (NdArray (map (orient_z focus) vs)))
      else if py_in axis ''x'' then
        (case np_array xyz of Inl e \<Rightarrow> Inl e | Inr vs \<Rightarrow> Inr (NdArray (map (orient_x focus) vs)))
      else Inr (PyList xyz))"

subsection \<open>Field evaluation (lines 59 to 73)\<close>

definition dist_src :: "vec3 \<Rightarrow> vec3 \<Rightarrow> real" where
  "dist_src pt s =
     (case (pt, s) of ((p0, p1, p2), (x, y, z)) \<Rightarrow> sqrt ((p0 - x)\<^sup>2 + (p1 - y)\<^sup>2 + (p2 - z)\<^sup>2))"

definition monopole :: "complex \<Rightarrow> real \<Rightarrow> complex" where
  "monopole k d = exp (\<i> * k * of_real d) / of_real (4 * pi * d)"

text \<open>What one source adds to the sum at one observation point (lines 70 and 71).\<close>

definition contribution :: "complex \<Rightarrow> vec3 \<Rightarrow> vec3 \<Rightarrow> complex" where
  "contribution k pt s = (if 0.001 < dist_src pt s then monopole k (dist_src pt s) else 0)"

text \<open>
  The quotient of line 71. The function is compiled by numba with its default error
  model, under which a division by zero raises ZeroDivisionError.
\<close>

definition monopole_checked :: "complex \<Rightarrow> real \<Rightarrow> py_error + complex" where
  "monopole_checked k d = (if 4 * pi * d = 0 then Inl ZeroDivisionError else Inr (monopole k d))"

text \<open>The inner loop over the sources \<open>j\<close>, with the accumulator \<open>temp\<close>.\<close>

fun source_loop :: "complex \<Rightarrow> vec3 \<Rightarrow> complex \<Rightarrow> vec3 list \<Rightarrow> py_error + complex" where
  "source_loop k pt temp [] = Inr temp"
| "source_loop k pt temp (s # ss) =
     (if 0.001 < dist_src pt s then
        (case monopole_checked k (dist_src pt s) of
           Inl e \<Rightarrow> Inl e
         | Inr g \<Rightarrow> source_loop k pt (temp + g) ss)
      else source_loop k pt temp ss)"

text \<open>The outer loop over the observation points \<open>i\<close> (one triple per column of \<open>points\<close>).\<close>

fun point_loop :: "complex \<Rightarrow> vec3 list \<Rightarrow> vec3 list \<Rightarrow> py_error + complex list" where
  "point_loop k srcs [] = Inr []"
| "point_loop k srcs (pt # pts) =
     (case source_loop k pt 0 srcs of
        Inl e \<Rightarrow> Inl e
      | Inr v \<Rightarrow> (case point_loop k srcs pts of Inl e \<Rightarrow> Inl e | Inr vs \<Rightarrow> Inr (v # vs)))"

text \<open>
  The compiled function reads \<open>x.shape[0]\<close>. Called on Python lists it is rejected
  when numba types the call: an empty list has no type that numba can determine
  (ValueError), and a list of floats has no attribute \<open>shape\<close> (TypingError).
\<close>

fun eval_source :: "coords \<Rightarrow> vec3 list \<Rightarrow> complex \<Rightarrow> py_error + complex list" where
  "eval_source (NdArray srcs) points k = point_loop k srcs points"
| "eval_source (PyList []) points k = Inl ValueError"
| "eval_source (PyList (s # ss)) points k = Inl TypingError"

subsection \<open>\<open>bowl_transducer\<close>\<close>

text \<open>The product \<open>p*a\<close> of line 79.\<close>

fun scale_field :: "npfloat \<Rightarrow> complex list \<Rightarrow> stop + complex list" where
  "scale_field (Fin a) p = Inr (map (\<lambda>v. v * of_real a) p)"
| "scale_field _ p = Inl NonFinite"

definition bowl_transducer ::
  "complex \<Rightarrow> real \<Rightarrow> vec3 \<Rightarrow> real \<Rightarrow> int \<Rightarrow> real \<Rightarrow> vec3 list \<Rightarrow> string
     \<Rightarrow> stop + (coords \<times> complex list)" where
  "bowl_transducer k focal_length focus radius n_elements aperture_radius points axis =
     (case tiling focal_length radius n_elements aperture_radius of
        Inl e \<Rightarrow> Inl (Raises e)
      | Inr xyz \<Rightarrow>
          (case orient axis focus xyz of
             Inl e \<Rightarrow> Inl e
           | Inr c \<Rightarrow>
               (case eval_source c points k of
                  Inl e \<Rightarrow> Inl (Raises e)
                | Inr p \<Rightarrow>
                    (case scale_field
                            (area_element focal_length radius n_elements aperture_radius) p of
                       Inl e \<Rightarrow> Inl e
                     | Inr pa \<Rightarrow> Inr (c, pa)))))"

subsection \<open>\<open>normalise_power\<close> (lines 82 to 98)\<close>

definition n_quad :: nat where
  "n_quad = 500"

text \<open>\<open>np.linspace(start, stop, num)\<close>: \<open>num\<close> samples, \<open>num - 1\<close> equal steps.\<close>

definition linspace :: "real \<Rightarrow> real \<Rightarrow> nat \<Rightarrow> real list" where
  "linspace start stop num =
     map (\<lambda>i. start + real i * ((stop - start) / real (num - 1))) [0..<num]"

definition x_location_disk :: "real \<Rightarrow> real \<Rightarrow> npfloat" where
  "x_location_disk focal_length radius =
     np_sub (Fin focal_length)
            (np_mul (Fin 0.98) (np_sqrt (Fin (focal_length\<^sup>2 - radius\<^sup>2))))"

definition points_quad :: "real \<Rightarrow> real list \<Rightarrow> vec3 list" where
  "points_quad x_disk r_quad = map (\<lambda>r. (x_disk, 0, r)) r_quad"

text \<open>The quadrature of line 96.\<close>

definition quadrature :: "real \<Rightarrow> real list \<Rightarrow> complex list \<Rightarrow> real" where
  "quadrature r_quad_dim r_quad p_quad =
     2 * pi * sum_list (map2 (\<lambda>p r. (cmod p)\<^sup>2 * r) p_quad r_quad) * r_quad_dim / real n_quad"

text \<open>
  The parameter \<open>power\<close> is written \<open>target_power\<close>.
  The division and the square root of line 97 are numpy operations on a double, so the
  amplitude is returned also when it is an infinity or a nan. When the disk coordinate
  is a nan, \<open>points_quad\<close> holds it; the tiling inside \<open>bowl_transducer\<close> does not
  read the points and still runs first.
\<close>

definition normalise_power ::
  "real \<Rightarrow> real \<Rightarrow> real \<Rightarrow> real \<Rightarrow> complex \<Rightarrow> real \<Rightarrow> vec3 \<Rightarrow> int \<Rightarrow> real \<Rightarrow> stop + npfloat" where
  "normalise_power target_power rho c0 radius k1 focal_length focus n_elements aperture_radius =
     (let r_quad_dim = radius * 1.0;
          r_quad = linspace 0 r_quad_dim n_quad
      in case x_location_disk focal_length radius of
           Fin x_disk \<Rightarrow>
             (case bowl_transducer (of_real (Re k1)) focal_length focus radius n_elements
                     aperture_radius (points_quad x_disk r_quad) ''x'' of
                Inl e \<Rightarrow> Inl e
              | Inr (xyz, p_quad) \<Rightarrow>
                  (let integral = quadrature r_quad_dim r_quad p_quad
                   in Inr (np_sqrt (np_div (Fin (2 * rho * c0 * target_power)) (Fin integral)))))
         | _ \<Rightarrow>
             (case tiling focal_length radius n_elements aperture_radius of
                Inl e \<Rightarrow> Inl (Raises e)
              | Inr xyz \<Rightarrow> Inl NonFinite))"

section \<open>The harmonic cascade: \<open>demo/hifu/transducer_nonlinear.py\<close>\<close>

text \<open>
  A field on the voxel grid is a function from the voxel to its value; the
  Fortran-order reshapes between the grid and a vector rename the voxels and vanish in
  this representation. The script fixes its constants (\<open>c\<close>, \<open>rho\<close>, \<open>alpha0\<close>,
  \<open>eta\<close>, \<open>beta\<close>, \<open>f1\<close>, \<open>n_harm\<close>) at the top; they are parameters here.
\<close>

type_synonym voxel = "nat \<times> nat \<times> nat"
type_synonym field = "voxel \<Rightarrow> complex"

text \<open>
  The three routines of \<open>vines.operators\<close> and \<open>vines.precondition\<close> that the
  script calls are not part of the sources at hand. They are parameters: any three
  functions of the right shape.
\<close>

record ('g, 't, 'e) operators =
  volume_potential :: "complex \<Rightarrow> 'g \<Rightarrow> 't"
  circulant_embed_fftw :: "'t \<Rightarrow> nat \<Rightarrow> nat \<Rightarrow> nat \<Rightarrow> 'e"
  mvp_volume_potential :: "field \<Rightarrow> 'e \<Rightarrow> (voxel \<Rightarrow> bool) \<Rightarrow> field \<Rightarrow> field"

definition attenuation :: "real \<Rightarrow> real \<Rightarrow> nat \<Rightarrow> real" where
  "attenuation f alpha0 eta = alpha0 * (f * 0.000001) ^ eta"

text \<open>Lines 76 and 150: the quotient by \<open>c\<close> is a quotient of Python floats.\<close>

definition wavenumber :: "real \<Rightarrow> real \<Rightarrow> real \<Rightarrow> nat \<Rightarrow> py_error + complex" where
  "wavenumber f c alpha0 eta =
     (if c = 0 then Inl ZeroDivisionError
      else Inr (of_real (2 * pi * f / c) + \<i> * of_real (attenuation f alpha0 eta)))"

definition bind :: "'x + 'a \<Rightarrow> ('a \<Rightarrow> 'x + 'b) \<Rightarrow> 'x + 'b" where
  "bind m f = (case m of Inl e \<Rightarrow> Inl e | Inr v \<Rightarrow> f v)"

definition getitem :: "'a list \<Rightarrow> nat \<Rightarrow> py_error + 'a" where
  "getitem xs i = (if i < length xs then Inr (xs ! i) else Inl IndexError)"

definition setitem :: "'a list \<Rightarrow> nat \<Rightarrow> 'a \<Rightarrow> py_error + 'a list" where
  "setitem xs i v = (if i < length xs then Inr (xs[i := v]) else Inl IndexError)"

text \<open>The scalar factor \<open>m * beta * omega**2 / (rho * c**4)\<close>, a quotient of Python floats.\<close>

definition coefficient :: "real \<Rightarrow> real \<Rightarrow> real \<Rightarrow> real \<Rightarrow> real \<Rightarrow> py_error + real" where
  "coefficient m beta omega rho c =
     (if rho * c ^ 4 = 0 then Inl ZeroDivisionError
      else Inr (m * beta * omega\<^sup>2 / (rho * c ^ 4)))"

definition scale :: "real \<Rightarrow> field \<Rightarrow> field" where
  "scale q u = (\<lambda>v. of_real q * u v)"

definition times_field :: "field \<Rightarrow> field \<Rightarrow> field" where
  "times_field u w = (\<lambda>v. u v * w v)"

definition plus_field :: "field \<Rightarrow> field \<Rightarrow> field" where
  "plus_field u w = (\<lambda>v. u v + w v)"

text \<open>
  Lines 161 to 174: the value of the variable \<open>xIn\<close> after the chain of tests. No
  branch runs for an index above 4 and the variable keeps what it held (\<open>None\<close>:
  not yet assigned).
\<close>

definition forcing ::
  "real \<Rightarrow> real \<Rightarrow> real \<Rightarrow> real \<Rightarrow> nat \<Rightarrow> field list \<Rightarrow> field option
     \<Rightarrow> py_error + field option" where
  "forcing beta omega rho c i_harm P xIn =
     (if i_harm = 1 then
        bind (coefficient (- 2) beta omega rho c) (\<lambda>q.
        bind (getitem P 0) (\<lambda>P0.
        Inr (Some (times_field (scale q P0) P0))))
      else if i_harm = 2 then
        bind (coefficient (- 9) beta omega rho c) (\<lambda>q.
        bind (getitem P 0) (\<lambda>P0.
        bind (getitem P 1) (\<lambda>P1.
        Inr (Some (times_field (scale q P0) P1)))))
      else if i_harm = 3 then
        bind (coefficient (- 8) beta omega rho c) (\<lambda>q.
        bind (getitem P 1) (\<lambda>P1.
        bind (getitem P 0) (\<lambda>P0.
        bind (getitem P 2) (\<lambda>P2.
        Inr (Some (scale q (plus_field (times_field P1 P1)
                                       (times_field (scale 2 P0) P2))))))))
      else if i_harm = 4 then
        bind (coefficient (- 25) beta omega rho c) (\<lambda>q.
        bind (getitem P 0) (\<lambda>P0.
        bind (getitem P 3) (\<lambda>P3.
        bind (getitem P 1) (\<lambda>P1.
        bind (getitem P 2) (\<lambda>P2.
        Inr (Some (scale q (plus_field (times_field P0 P3) (times_field P1 P2)))))))))
      else Inr xIn)"

text \<open>
  One pass of the loop of lines 148 to 190. The state is the stack \<open>P\<close>, the variable
  \<open>xIn\<close> and the list of the wavenumbers at which an operator has been assembled and
  embedded so far.
\<close>

type_synonym cascade_state = "field list \<times> field option \<times> complex list"

definition harmonic_step ::
  "('g, 't, 'e) operators \<Rightarrow> 'g \<Rightarrow> nat \<Rightarrow> nat \<Rightarrow> nat
     \<Rightarrow> real \<Rightarrow> real \<Rightarrow> real \<Rightarrow> nat \<Rightarrow> real \<Rightarrow> real
     \<Rightarrow> nat \<Rightarrow> cascade_state \<Rightarrow> py_error + cascade_state" where
  "harmonic_step ops r L M N c rho alpha0 eta beta f1 i_harm st =
     (case st of (P, xIn, built) \<Rightarrow>
        (let f2 = (real i_harm + 1) * f1 in
         bind (wavenumber f2 c alpha0 eta) (\<lambda>k2.
           (let toep_op = volume_potential ops k2 r;
                circ_op = circulant_embed_fftw ops toep_op L M N
            in bind (forcing beta (2 * pi * f1) rho c i_harm P xIn) (\<lambda>xIn'.
                 (case xIn' of
                    None \<Rightarrow> Inl NameError
                  | Some xInVec \<Rightarrow>
                      bind (setitem P i_harm
                              (mvp_volume_potential ops xInVec circ_op (\<lambda>v. True) (\<lambda>v. 1)))
                           (\<lambda>P'. Inr (P', xIn', built @ [k2]))))))))"

fun harmonic_loop ::
  "('g, 't, 'e) operators \<Rightarrow> 'g \<Rightarrow> nat \<Rightarrow> nat \<Rightarrow> nat
     \<Rightarrow> real \<Rightarrow> real \<Rightarrow> real \<Rightarrow> nat \<Rightarrow> real \<Rightarrow> real
     \<Rightarrow> nat list \<Rightarrow> cascade_state \<Rightarrow> py_error + cascade_state" where
  "harmonic_loop ops r L M N c rho alpha0 eta beta f1 [] st = Inr st"
| "harmonic_loop ops r L M N c rho alpha0 eta beta f1 (i_harm # rest) st =
     bind (harmonic_step ops r L M N c rho alpha0 eta beta f1 i_harm st)
          (harmonic_loop ops r L M N c rho alpha0 eta beta f1 rest)"

text \<open>
  Lines 116 to 118 and 147 to 190: the stack is allocated with \<open>n_harm\<close> zero fields,
  the fundamental field \<open>p\<close> is stored at index 0, and the loop runs over
  \<open>range(1, n_harm)\<close>.
\<close>

definition harmonic_cascade ::
  "('g, 't, 'e) operators \<Rightarrow> 'g \<Rightarrow> nat \<Rightarrow> nat \<Rightarrow> nat
     \<Rightarrow> real \<Rightarrow> real \<Rightarrow> real \<Rightarrow> nat \<Rightarrow> real \<Rightarrow> real
     \<Rightarrow> nat \<Rightarrow> field \<Rightarrow> py_error + cascade_state" where
  "harmonic_cascade ops r L M N c rho alpha0 eta beta f1 n_harm p =
     bind (setitem (replicate n_harm (\<lambda>v. 0)) 0 p) (\<lambda>P.
       harmonic_loop ops r L M N c rho alpha0 eta beta f1 [1..<n_harm] (P, None, []))"

text \<open>
  The value of \<open>k2\<close> in pass \<open>i_harm\<close> (lines 149 and 150) when \<open>c\<close> is not zero,
  and the operator \<open>circ_op\<close> that the pass assembles and embeds at a wavenumber (lines
  154 and 156).
\<close>

definition k2 :: "real \<Rightarrow> real \<Rightarrow> real \<Rightarrow> nat \<Rightarrow> nat \<Rightarrow> complex" where
  "k2 f1 c alpha0 eta i_harm =
     of_real (2 * pi * ((real i_harm + 1) * f1) / c)
       + \<i> * of_real (attenuation ((real i_harm + 1) * f1) alpha0 eta)"

definition circ_op ::
  "('g, 't, 'e) operators \<Rightarrow> 'g \<Rightarrow> nat \<Rightarrow> nat \<Rightarrow> nat \<Rightarrow> complex \<Rightarrow> 'e" where
  "circ_op ops r L M N k = circulant_embed_fftw ops (volume_potential ops k r) L M N"


section \<open>Field evaluation: the singularity guard\<close>

lemma monopole_checked_far:
  "0.001 < d \<Longrightarrow> monopole_checked k d = Inr (monopole k d)"
  by (simp add: monopole_checked_def)

lemma source_loop_sum:
  "source_loop k pt temp srcs = Inr (temp + (\<Sum>s\<leftarrow>srcs. contribution k pt s))"
proof (induction srcs arbitrary: temp)
  case Nil
  show ?case by simp
next
  case (Cons s ss)
  show ?case
  proof (cases "0.001 < dist_src pt s")
    case True
    then show ?thesis
      by (simp add: Cons.IH monopole_checked_far contribution_def add.assoc)
  next
    case False
    then show ?thesis
      by (simp add: Cons.IH contribution_def)
  qed
qed

lemma point_loop_sum:
  "point_loop k srcs points = Inr (map (\<lambda>pt. \<Sum>s\<leftarrow>srcs. contribution k pt s) points)"
  by (induction points) (simp_all add: source_loop_sum)

lemma eval_source_PyList: "eval_source (PyList xyz) points k \<noteq> Inr p"
  by (cases xyz) simp_all

text \<open>
  C6. On arrays of sources and observation points the field evaluation always
  returns: no division by zero and no other exception, also when an observation point
  coincides with a source. Each entry of the result is the sum over the sources of their
  contributions, and a source at distance at most 0.001 from the observation point
  contributes exactly zero.
\<close>

theorem eval_source_guard:
  "eval_source (NdArray srcs) points k
     = Inr (map (\<lambda>pt. \<Sum>s\<leftarrow>srcs. contribution k pt s) points)
   \<and> (\<forall>pt s. dist_src pt s \<le> 0.001 \<longrightarrow> contribution k pt s = 0)
   \<and> eval_source (NdArray [s0]) [s0] k = Inr [0]"
proof -
  have "dist_src s0 s0 = 0"
    by (cases s0) (simp add: dist_src_def)
  then have "contribution k s0 s0 = 0"
    by (simp add: contribution_def)
  then show ?thesis
    by (simp add: point_loop_sum contribution_def)
qed

theorem eval_source_guard_witness:
  "eval_source (NdArray [(0, 0, 0), (1, 0, 0)]) [(0, 0, 0)] 2
     = Inr [monopole 2 1]
   \<and> dist_src (0, 0, 0) (0, 0, 0) \<le> 0.001
   \<and> contribution 2 (0, 0, 0) (0, 0, 0) = 0"
proof -
  have d0: "dist_src (0, 0, 0) (0, 0, 0) = 0" and d1: "dist_src (0, 0, 0) (1, 0, 0) = 1"
    by (simp_all add: dist_src_def)
  from eval_source_guard [of "[(0, 0, 0), (1, 0, 0)]" "[(0, 0, 0)]" 2 "(0, 0, 0)"]
  show ?thesis
    by (simp add: contribution_def d0 d1)
qed

section \<open>Orientation\<close>

lemma startswith_nil: "startswith [] sub \<longleftrightarrow> sub = []"
  by (cases sub) simp_all

lemma startswith_single: "startswith [ch] sub \<longleftrightarrow> sub = [] \<or> sub = [ch]"
  by (cases sub) (auto simp: startswith_nil)

lemma py_in_single: "py_in axis [ch] \<longleftrightarrow> axis = [] \<or> axis = [ch]"
  by (auto simp: startswith_single)

text \<open>
  C9. The axis is not validated. For an axis other than \<open>'x'\<close>, \<open>'z'\<close> and the empty
  string, neither branch of lines 37 to 47 runs: the orientation step raises nothing and
  hands on the lists of the tiling as they are, with no translation by the focus (for
  instance for \<open>'y'\<close>). The test \<open>axis in 'z'\<close> is a substring test, so it holds
  exactly for \<open>'z'\<close> and for the empty string, and the empty string is oriented as
  \<open>'z'\<close> is.
\<close>

theorem orient_unvalidated_axis:
  "(axis \<noteq> ''x'' \<and> axis \<noteq> ''z'' \<and> axis \<noteq> '''' \<longrightarrow> orient axis focus xyz = Inr (PyList xyz))
   \<and> orient ''y'' focus xyz = Inr (PyList xyz)
   \<and> (py_in axis ''z'' \<longleftrightarrow> axis = '''' \<or> axis = ''z'')
   \<and> orient '''' focus xyz = orient ''z'' focus xyz"
  by (auto simp: orient_def startswith_single)

theorem orient_unvalidated_axis_witness:
  "''yz'' \<noteq> ''x'' \<and> ''yz'' \<noteq> ''z'' \<and> ''yz'' \<noteq> ''''
   \<and> orient ''yz'' (1, 0, 0) [(Fin 1, Fin 2, Fin 3)] = Inr (PyList [(Fin 1, Fin 2, Fin 3)])
   \<and> orient '''' (0, 0, 5) [(Fin 1, Fin 2, Fin 3)] = Inr (NdArray [(1, 2, 2)])"
  using orient_unvalidated_axis [of "''yz''" "(1, 0, 0)" "[(Fin 1, Fin 2, Fin 3)]"]
  by (simp add: orient_def orient_z_def)


text \<open>
  With such an axis the call still fails, later: the compiled field evaluation rejects
  the lists.
\<close>

lemma bowl_transducer_other_axis:
  assumes "tiling focal_length radius n_elements aperture_radius = Inr xyz"
    and "axis \<noteq> ''x''" and "axis \<noteq> ''z''" and "axis \<noteq> ''''"
  shows "bowl_transducer k focal_length focus radius n_elements aperture_radius points axis
           = Inl (Raises (if xyz = [] then ValueError else TypingError))"
  using assms by (cases xyz) (simp_all add: bowl_transducer_def orient_def startswith_single)

section \<open>Special values\<close>

lemma np_add_NaN_right [simp]: "np_add a NaN = NaN"
  by (cases a) simp_all

lemma np_mul_NaN_right [simp]: "np_mul a NaN = NaN"
  by (cases a) simp_all

lemma np_div_NaN_right [simp]: "np_div a NaN = NaN"
  by (cases a) simp_all

lemma np_int_not_zero_division: "np_int v \<noteq> Inl ZeroDivisionError"
  by (cases v) simp_all

section \<open>The tiling either raises at the band count or returns finite sources\<close>

lemma theta_cases:
  "np_arcsin v = NaN \<or> (\<exists>t. np_arcsin v = Fin t)"
  by (simp add: np_arcsin_def)

lemma band_count_Inr_D:
  assumes "band_count focal_length radius n_elements aperture_radius = Inr M_theta"
  shows "\<exists>t1 t2. theta1_of focal_length aperture_radius = Fin t1
               \<and> theta2_of focal_length radius = Fin t2"
proof -
  have "theta1_of focal_length aperture_radius \<noteq> NaN"
    using assms by (auto simp: band_count_def Let_def np_sub_def)
  moreover have "theta2_of focal_length radius \<noteq> NaN"
    using assms
    by (cases "theta1_of focal_length aperture_radius")
       (auto simp: band_count_def Let_def np_sub_def)
  ultimately show ?thesis
    using theta_cases [of "aperture_radius / focal_length"]
          theta_cases [of "radius / focal_length"]
    by (auto simp: theta1_of_def theta2_of_def)
qed

lemma round_half_even_zero: "round_half_even 0 = 0"
  by (simp add: round_half_even_def)

lemma band_count_pos_D:
  assumes "band_count focal_length radius n_elements aperture_radius = Inr M_theta"
    and "1 \<le> M_theta"
  shows "\<exists>t1 t2 a. theta1_of focal_length aperture_radius = Fin t1
               \<and> theta2_of focal_length radius = Fin t2
               \<and> area_element focal_length radius n_elements aperture_radius = Fin a
               \<and> 0 < a \<and> t1 \<noteq> t2"
proof -
  obtain t1 t2 where t: "theta1_of focal_length aperture_radius = Fin t1"
      "theta2_of focal_length radius = Fin t2"
    using band_count_Inr_D [OF assms(1)] by blast
  show ?thesis
  proof (cases "area_element focal_length radius n_elements aperture_radius")
    case (Fin a)
    then show ?thesis
      using assms t
      by (auto simp: band_count_def Let_def np_sub_def inf_of_sign_def round_half_even_zero
               split: if_splits)
  next
    case PInf
    then show ?thesis
      using assms t by (simp add: band_count_def Let_def np_sub_def round_half_even_zero)
  next
    case NInf
    then show ?thesis
      using assms t by (simp add: band_count_def Let_def np_sub_def)
  next
    case NaN
    then show ?thesis
      using assms t by (simp add: band_count_def Let_def np_sub_def)
  qed
qed

lemma np_int_of_int [simp]: "np_int (Fin (of_int z)) = Inr z"
  by simp

lemma np_array_Fin_map:
  "np_array (map (\<lambda>n. (Fin (f n), Fin (g n), Fin (h n))) ns)
     = Inr (map (\<lambda>n. (f n, g n, h n)) ns)"
  by (induction ns) simp_all

lemma np_array_append:
  "np_array xs = Inr vs \<Longrightarrow> np_array ys = Inr ws \<Longrightarrow> np_array (xs @ ys) = Inr (vs @ ws)"
proof (induction xs arbitrary: vs)
  case Nil
  then show ?case by simp
next
  case (Cons x xs)
  then show ?case
    by (auto split: option.splits sum.splits)
qed

lemma source_Fin:
  "source focal_length (Fin theta) M_phi n
     = (Fin (focal_length * sin theta * cos (2 * pi * real n / of_int M_phi)),
        Fin (focal_length * sin theta * sin (2 * pi * real n / of_int M_phi)),
        Fin (focal_length * cos theta))"
  by (simp add: source_def Let_def)

lemma np_array_sources:
  "\<exists>vs. np_array (map (source focal_length (Fin theta) M_phi) ns) = Inr vs"
  by (induction ns) (auto simp: source_Fin)

lemma band_Fin:
  assumes "d_phi \<noteq> 0" and "M_theta \<noteq> 0"
  shows "\<exists>ss vs. band focal_length (Fin t1) (Fin t2) M_theta (Fin d_phi) m = Inr ss
             \<and> np_array ss = Inr vs"
  using assms
  by (simp add: band_def band_theta_def np_sub_def Let_def np_array_sources
           del: np_int.simps)

lemma bands_Fin:
  assumes "d_phi \<noteq> 0" and "M_theta \<noteq> 0"
  shows "\<exists>xyz srcs. bands focal_length (Fin t1) (Fin t2) M_theta (Fin d_phi) ms = Inr xyz
             \<and> np_array xyz = Inr srcs"
proof (induction ms)
  case Nil
  show ?case by simp
next
  case (Cons m ms)
  obtain ss vs where b: "band focal_length (Fin t1) (Fin t2) M_theta (Fin d_phi) m = Inr ss"
      "np_array ss = Inr vs"
    using band_Fin [OF assms] by blast
  obtain xyz srcs where r: "bands focal_length (Fin t1) (Fin t2) M_theta (Fin d_phi) ms = Inr xyz"
      "np_array xyz = Inr srcs"
    using Cons.IH by blast
  show ?case
    using b r by (simp add: np_array_append)
qed

lemma tiling_returns:
  assumes "focal_length \<noteq> 0"
    and "band_count focal_length radius n_elements aperture_radius = Inr M_theta"
  shows "\<exists>xyz srcs. tiling focal_length radius n_elements aperture_radius = Inr xyz
             \<and> np_array xyz = Inr srcs \<and> (M_theta \<le> 0 \<longrightarrow> xyz = [])"
proof (cases "M_theta \<le> 0")
  case True
  then show ?thesis
    using assms by (simp add: tiling_def Let_def)
next
  case False
  then have M: "1 \<le> M_theta" by simp
  obtain t1 t2 a where t: "theta1_of focal_length aperture_radius = Fin t1"
      "theta2_of focal_length radius = Fin t2"
      "area_element focal_length radius n_elements aperture_radius = Fin a"
      "0 < a" "t1 \<noteq> t2"
    using band_count_pos_D [OF assms(2) M] by blast
  have "a / ((t2 - t1) / of_int M_theta) \<noteq> 0"
    using t M by simp
  moreover have "M_theta \<noteq> 0"
    using M by simp
  ultimately show ?thesis
    using bands_Fin [of "a / ((t2 - t1) / of_int M_theta)" M_theta focal_length t1 t2
                        "[0..<nat M_theta]"]
          assms t M
    by (simp add: tiling_def Let_def np_sub_def)
qed

lemma tiling_raises_D:
  assumes "tiling focal_length radius n_elements aperture_radius = Inl e"
  shows "(focal_length = 0 \<and> e = ZeroDivisionError)
         \<or> band_count focal_length radius n_elements aperture_radius = Inl e"
proof (cases "focal_length = 0")
  case True
  then show ?thesis
    using assms by (simp add: tiling_def)
next
  case False
  show ?thesis
  proof (cases "band_count focal_length radius n_elements aperture_radius")
    case (Inl e')
    then show ?thesis
      using assms False by (simp add: tiling_def Let_def)
  next
    case (Inr M_theta)
    then show ?thesis
      using tiling_returns [OF False Inr] assms by auto
  qed
qed

lemma tiling_finite:
  assumes "tiling focal_length radius n_elements aperture_radius = Inr xyz"
  shows "\<exists>srcs. np_array xyz = Inr srcs"
proof -
  have nz: "focal_length \<noteq> 0"
    using assms by (auto simp: tiling_def)
  obtain M_theta where "band_count focal_length radius n_elements aperture_radius = Inr M_theta"
    using assms nz by (cases "band_count focal_length radius n_elements aperture_radius")
                       (simp_all add: tiling_def Let_def)
  from tiling_returns [OF nz this] assms show ?thesis
    by auto
qed

section \<open>Three tilings computed\<close>

lemma round_half_even_near:
  assumes "of_int z - 1 / 2 < x" and "x < of_int z + 1 / 2"
  shows "round_half_even x = z"
proof -
  have "\<lfloor>x\<rfloor> = z \<or> \<lfloor>x\<rfloor> = z - 1"
    using assms by linarith
  then show ?thesis
  proof
    assume "\<lfloor>x\<rfloor> = z"
    moreover from this have "x - of_int z < 1 / 2"
      using assms by linarith
    ultimately show ?thesis
      by (simp add: round_half_even_def Let_def)
  next
    assume f: "\<lfloor>x\<rfloor> = z - 1"
    then have "1 / 2 < x - of_int (z - 1)"
      using assms by simp
    then show ?thesis
      using f by (simp add: round_half_even_def Let_def)
  qed
qed

lemma pi_ge_three: "3 \<le> pi"
proof -
  have "sin (pi / 6) \<le> pi / 6"
    by (rule sin_x_le_x) simp
  then show ?thesis
    by (simp add: sin_30)
qed

lemma sqrt2_lower: "7 / 5 < sqrt 2"
  by (rule real_less_rsqrt) (simp add: power2_eq_square)

lemma sqrt2_upper: "sqrt 2 < 3 / 2"
  by (rule real_less_lsqrt) (simp_all add: power2_eq_square)

text \<open>Example A: focal length 1, radius 1, one element, no aperture.\<close>

lemma exA_area: "area_element 1 1 1 0 = Fin (2 * pi)"
  by (simp add: area_element_def theta1_of_def theta2_of_def np_arcsin_def np_sub_def)

lemma exA_ratio: "1 / 2 < pi / 2 / sqrt (2 * pi)" "pi / 2 / sqrt (2 * pi) < 1 / 2 + 1"
proof -
  have s: "sqrt (2 * pi) * sqrt (2 * pi) = 2 * pi"
    by simp
  have p: "0 < sqrt (2 * pi)"
    by simp
  have "sqrt (2 * pi) < pi"
    using pi_ge_three by (intro real_less_lsqrt) (simp_all add: power2_eq_square)
  then show "1 / 2 < pi / 2 / sqrt (2 * pi)"
    using p by (simp add: field_simps)
  have "2 \<le> sqrt (2 * pi)"
    using pi_ge_two by (intro real_le_rsqrt) (simp add: power2_eq_square)
  then have "pi < 3 * sqrt (2 * pi)"
    using pi_less_4 by linarith
  then show "pi / 2 / sqrt (2 * pi) < 1 / 2 + 1"
    using p by (simp add: field_simps)
qed

lemma exA_band_count: "band_count 1 1 1 0 = Inr 1"
proof -
  have "round_half_even (pi / 2 / sqrt (2 * pi)) = 1"
    using exA_ratio by (intro round_half_even_near) simp_all
  then show ?thesis
    by (simp add: band_count_def exA_area theta1_of_def theta2_of_def np_arcsin_def np_sub_def)
qed

lemma exA_M_phi: "round_half_even (pi * sqrt 2 / 4) = 1"
proof -
  have "2 < pi * sqrt 2" "pi * sqrt 2 < 6"
  proof -
    have "3 * (7 / 5) < pi * sqrt 2"
      using pi_ge_three sqrt2_lower by (intro mult_le_less_imp_less) simp_all
    then show "2 < pi * sqrt 2" by simp
    have "pi * sqrt 2 < 4 * (3 / 2)"
      using pi_less_4 sqrt2_upper by (intro mult_strict_mono) simp_all
    then show "pi * sqrt 2 < 6" by simp
  qed
  then show ?thesis
    by (intro round_half_even_near) simp_all
qed

lemma exA_tiling: "tiling 1 1 1 0 = Inr [(Fin (sqrt 2 / 2), Fin 0, Fin (sqrt 2 / 2))]"
proof -
  have th: "theta1_of 1 0 = Fin 0" "theta2_of 1 1 = Fin (pi / 2)"
    by (simp_all add: theta1_of_def theta2_of_def np_arcsin_def)
  have bt: "band_theta (Fin 0) (Fin (pi / 2)) 1 0 = Fin (pi / 4)"
    by (simp add: band_theta_def np_sub_def)
  have b: "band 1 (Fin 0) (Fin (pi / 2)) 1 (Fin 4) 0
             = Inr [(Fin (sqrt 2 / 2), Fin 0, Fin (sqrt 2 / 2))]"
    by (simp add: band_def bt exA_M_phi source_def sin_45 cos_45)
  show ?thesis
    by (simp add: tiling_def exA_band_count exA_area th np_sub_def b)
qed

text \<open>Example B: focal length 10, radius 7, aperture radius 5, one element.\<close>

lemma exB_theta: "theta1_of 10 5 = Fin (pi / 6)" "theta2_of 10 7 = Fin (arcsin (7 / 10))"
  by (simp_all add: theta1_of_def theta2_of_def np_arcsin_def)

lemma exB_area:
  "area_element 10 7 1 5 = Fin (2 * pi * (sqrt 3 / 2 - sqrt (51 / 100)))"
proof -
  have "cos (arcsin (7 / 10)) = sqrt (51 / 100)"
    by (simp add: cos_arcsin power2_eq_square)
  then show ?thesis
    by (simp add: area_element_def exB_theta np_sub_def cos_30)
qed

lemma exB_delta: "7 / 50 \<le> sqrt 3 / 2 - sqrt (51 / 100)"
proof -
  have "43 / 25 \<le> sqrt 3"
    by (rule real_le_rsqrt) (simp add: power2_eq_square)
  moreover have "sqrt (51 / 100) \<le> 18 / 25"
    by (rule real_le_lsqrt) (simp_all add: power2_eq_square)
  ultimately show ?thesis
    by simp
qed

lemma exB_angle: "0 \<le> arcsin (7 / 10) - pi / 6" "arcsin (7 / 10) - pi / 6 < 1 / 3"
proof -
  have "arcsin (1 / 2) \<le> arcsin (7 / 10)"
    by (rule arcsin_le_arcsin) simp_all
  then show "0 \<le> arcsin (7 / 10) - pi / 6"
    by simp
  have "sqrt 2 \<le> 10 / 7"
    by (rule real_le_lsqrt) (simp_all add: power2_eq_square)
  then have "7 / 10 \<le> 1 / sqrt 2"
    by (simp add: field_simps)
  then have "arcsin (7 / 10) \<le> arcsin (1 / sqrt 2)"
    by (intro arcsin_le_arcsin) simp_all
  then have "arcsin (7 / 10) \<le> pi / 4"
    by (simp add: arcsin_one_over_sqrt_2)
  then show "arcsin (7 / 10) - pi / 6 < 1 / 3"
    using pi_less_4 by simp
qed

lemma exB_band_count: "band_count 10 7 1 5 = Inr 0"
proof -
  define a where "a = 2 * pi * (sqrt 3 / 2 - sqrt (51 / 100))"
  have "2 * 3 * (7 / 50) \<le> a"
    unfolding a_def using pi_ge_three exB_delta by (intro mult_mono) simp_all
  then have a: "21 / 25 \<le> a"
    by simp
  have "9 / 10 \<le> sqrt a"
    using a by (intro real_le_rsqrt) (simp add: power2_eq_square)
  then have d: "2 / 3 < sqrt a"
    by simp
  have "arcsin (7 / 10) - pi / 6 < 1 / 2 * sqrt a"
    using d exB_angle(2) by linarith
  moreover have "0 < sqrt a"
    using a by simp
  ultimately have "(arcsin (7 / 10) - pi / 6) / sqrt a < 1 / 2"
    by (simp add: pos_divide_less_eq)
  moreover have "0 \<le> (arcsin (7 / 10) - pi / 6) / sqrt a"
    using a exB_angle(1) by simp
  ultimately have "round_half_even ((arcsin (7 / 10) - pi / 6) / sqrt a) = 0"
    by (intro round_half_even_near) simp_all
  moreover have "0 < sqrt a"
    using a by simp
  moreover have "\<not> a < 0"
    using a by simp
  moreover have "area_element 10 7 1 5 = Fin a"
    by (simp add: exB_area a_def)
  ultimately show ?thesis
    by (simp add: band_count_def exB_theta np_sub_def)
qed

lemma exB_tiling: "tiling 10 7 1 5 = Inr []"
  by (simp add: tiling_def exB_band_count)

lemma pi_le_324: "pi \<le> 81 / 25"
proof -
  define t where "t = pi / 6"
  have t: "0 \<le> t" "t \<le> 2 / 3"
    using pi_less_4 by (simp_all add: t_def)
  have "(\<Sum>m<3. sin_coeff m * t ^ m) = t"
    by (simp add: sin_coeff_def eval_nat_numeral)
  then have "\<bar>sin t - t\<bar> \<le> inverse (fact 3) * \<bar>t\<bar> ^ 3"
    using Maclaurin_sin_bound [of t 3] by simp
  moreover have "sin t = 1 / 2"
    by (simp add: t_def sin_30)
  moreover have "inverse (fact 3 :: real) = 1 / 6"
    by (simp add: eval_nat_numeral)
  moreover have "\<bar>t\<bar> = t"
    using t by simp
  ultimately have "\<bar>1 / 2 - t\<bar> \<le> 1 / 6 * t ^ 3"
    by simp
  then have "t - 1 / 2 \<le> t ^ 3 / 6"
    by linarith
  moreover have "t ^ 3 \<le> 4 / 9 * t"
  proof -
    have "t * t \<le> 2 / 3 * (2 / 3)"
      using t by (intro mult_mono) simp_all
    then have "t * t * t \<le> 4 / 9 * t"
      using t by (intro mult_right_mono) simp_all
    then show ?thesis
      by (simp add: eval_nat_numeral)
  qed
  ultimately have "t \<le> 27 / 50"
    by simp
  then show ?thesis
    by (simp add: t_def)
qed

text \<open>Example C: focal length 2, radius 2, two elements, no aperture.\<close>

lemma exC_area: "area_element 2 2 2 0 = Fin pi"
  by (simp add: area_element_def theta1_of_def theta2_of_def np_arcsin_def np_sub_def)

lemma exC_band_count: "band_count 2 2 2 0 = Inr 1"
proof -
  have lo: "3 / 2 \<le> sqrt pi"
    using pi_ge_three by (intro real_le_rsqrt) (simp add: power2_eq_square)
  have hi: "sqrt pi \<le> 2"
    using pi_less_4 by (intro real_le_lsqrt) simp_all
  have e: "pi / 2 / sqrt pi = sqrt pi / 2"
    by (simp add: real_div_sqrt)
  have "1 / 2 < sqrt pi / 2" "sqrt pi / 2 < 1 / 2 + 1"
    using lo hi by linarith+
  then have "1 / 2 < pi / 2 / sqrt pi" "pi / 2 / sqrt pi < 1 / 2 + 1"
    unfolding e .
  then have "round_half_even (pi / 2 / sqrt pi) = 1"
    by (intro round_half_even_near) simp_all
  then show ?thesis
    by (simp add: band_count_def exC_area theta1_of_def theta2_of_def np_arcsin_def np_sub_def)
qed

lemma exC_M_phi: "round_half_even (pi * sqrt 2 / 2) = 2"
proof -
  have "sqrt 2 \<le> 10 / 7"
    by (rule real_le_lsqrt) (simp_all add: power2_eq_square)
  then have "pi * sqrt 2 \<le> 81 / 25 * (10 / 7)"
    using pi_le_324 by (intro mult_mono) simp_all
  then have u: "pi * sqrt 2 < 5"
    by simp
  have "3 * (7 / 5) < pi * sqrt 2"
    using pi_ge_three sqrt2_lower by (intro mult_le_less_imp_less) simp_all
  then have l: "3 < pi * sqrt 2"
    by simp
  show ?thesis
    using u l by (intro round_half_even_near) simp_all
qed

lemma exC_tiling:
  "tiling 2 2 2 0 = Inr [(Fin (sqrt 2), Fin 0, Fin (sqrt 2)), (Fin (- sqrt 2), Fin 0, Fin (sqrt 2))]"
proof -
  have th: "theta1_of 2 0 = Fin 0" "theta2_of 2 2 = Fin (pi / 2)"
    by (simp_all add: theta1_of_def theta2_of_def np_arcsin_def)
  have bt: "band_theta (Fin 0) (Fin (pi / 2)) 1 0 = Fin (pi / 4)"
    by (simp add: band_theta_def np_sub_def)
  have upt: "[0..<2] = [0, 1::nat]"
    by (simp add: upt_rec)
  have s0: "source 2 (Fin (pi / 4)) 2 0 = (Fin (sqrt 2), Fin 0, Fin (sqrt 2))"
    by (simp add: source_def sin_45 cos_45)
  have s1: "source 2 (Fin (pi / 4)) 2 (Suc 0) = (Fin (- sqrt 2), Fin 0, Fin (sqrt 2))"
    by (simp add: source_def sin_45 cos_45)
  have b: "band 2 (Fin 0) (Fin (pi / 2)) 1 (Fin 2) 0
             = Inr [(Fin (sqrt 2), Fin 0, Fin (sqrt 2)), (Fin (- sqrt 2), Fin 0, Fin (sqrt 2))]"
    unfolding band_def bt Let_def
    by (simp add: sin_45 exC_M_phi upt s0 s1)
  show ?thesis
    by (simp add: tiling_def exC_band_count exC_area th np_sub_def b Let_def)
qed

lemma exC_orient:
  "orient ''x'' (2, 0, 0)
     [(Fin (sqrt 2), Fin 0, Fin (sqrt 2)), (Fin (- sqrt 2), Fin 0, Fin (sqrt 2))]
     = Inr (NdArray [(2 - sqrt 2, - sqrt 2, 0), (2 - sqrt 2, sqrt 2, 0)])"
  by (simp add: orient_def orient_x_def)

section \<open>The field of the bowl\<close>

lemma area_element_Fin_D:
  assumes "area_element focal_length radius n_elements aperture_radius = Fin a"
  shows "n_elements \<noteq> 0
         \<and> a = 2 * pi * (cos (arcsin (aperture_radius / focal_length))
                        - cos (arcsin (radius / focal_length))) / of_int n_elements"
  using assms
  by (auto simp: area_element_def theta1_of_def theta2_of_def np_arcsin_def np_sub_def
                 inf_of_sign_def
           split: if_splits)

lemma area_element_Fin_I:
  assumes "theta1_of focal_length aperture_radius = Fin t1"
    and "theta2_of focal_length radius = Fin t2" and "n_elements \<noteq> 0"
  shows "\<exists>a. area_element focal_length radius n_elements aperture_radius = Fin a"
  using assms by (simp add: area_element_def np_sub_def)

lemma orient_NdArray_D:
  assumes "orient axis focus xyz = Inr c" and "eval_source c points k = Inr p"
  shows "\<exists>srcs. c = NdArray srcs"
  using assms eval_source_PyList by (cases c) auto

lemma scale_field_Inr_iff:
  "scale_field a p = Inr pa \<longleftrightarrow> (\<exists>av. a = Fin av \<and> pa = map (\<lambda>v. v * of_real av) p)"
  by (cases a) auto

lemma bowl_transducer_Inr_iff:
  "bowl_transducer k focal_length focus radius n_elements aperture_radius points axis = Inr (c, pa)
   \<longleftrightarrow> (\<exists>xyz p a. tiling focal_length radius n_elements aperture_radius = Inr xyz
          \<and> orient axis focus xyz = Inr c
          \<and> eval_source c points k = Inr p
          \<and> area_element focal_length radius n_elements aperture_radius = Fin a
          \<and> pa = map (\<lambda>v. v * of_real a) p)"
  by (auto simp: bowl_transducer_def scale_field_Inr_iff split: sum.splits)

lemma bowl_transducer_Inr_sum:
  "bowl_transducer k focal_length focus radius n_elements aperture_radius points axis = Inr (c, p)
   \<longleftrightarrow> (\<exists>xyz srcs a.
          tiling focal_length radius n_elements aperture_radius = Inr xyz
          \<and> orient axis focus xyz = Inr (NdArray srcs)
          \<and> c = NdArray srcs
          \<and> n_elements \<noteq> 0
          \<and> a = 2 * pi * (cos (arcsin (aperture_radius / focal_length))
                         - cos (arcsin (radius / focal_length))) / of_int n_elements
          \<and> area_element focal_length radius n_elements aperture_radius = Fin a
          \<and> p = map (\<lambda>pt. of_real a * (\<Sum>s\<leftarrow>srcs. contribution k pt s)) points)"
  (is "?L \<longleftrightarrow> ?R")
proof
  assume ?L
  then obtain xyz q a where h:
      "tiling focal_length radius n_elements aperture_radius = Inr xyz"
      "orient axis focus xyz = Inr c"
      "eval_source c points k = Inr q"
      "area_element focal_length radius n_elements aperture_radius = Fin a"
      "p = map (\<lambda>v. v * of_real a) q"
    unfolding bowl_transducer_Inr_iff by blast
  obtain srcs where c: "c = NdArray srcs"
    using orient_NdArray_D [OF h(2,3)] by blast
  have q: "q = map (\<lambda>pt. \<Sum>s\<leftarrow>srcs. contribution k pt s) points"
    using h(3) by (simp add: c point_loop_sum)
  show ?R
    using h(1,2,4) area_element_Fin_D [OF h(4)] unfolding c h(5) q
    by (auto simp: mult.commute)
next
  assume ?R
  then obtain xyz srcs a where h:
      "tiling focal_length radius n_elements aperture_radius = Inr xyz"
      "orient axis focus xyz = Inr (NdArray srcs)"
      "c = NdArray srcs"
      "area_element focal_length radius n_elements aperture_radius = Fin a"
      "p = map (\<lambda>pt. of_real a * (\<Sum>s\<leftarrow>srcs. contribution k pt s)) points"
    by blast
  show ?L
    unfolding bowl_transducer_Inr_iff
    using h by (auto simp: point_loop_sum mult.commute)
qed

lemma exA_orient:
  "orient ''x'' (1, 0, 0) [(Fin (sqrt 2 / 2), Fin 0, Fin (sqrt 2 / 2))]
     = Inr (NdArray [(1 - sqrt 2 / 2, - (sqrt 2 / 2), 0)])"
  by (simp add: orient_def orient_x_def)

lemma exA_bowl:
  "bowl_transducer k 1 (1, 0, 0) 1 1 0 points ''x''
     = Inr (NdArray [(1 - sqrt 2 / 2, - (sqrt 2 / 2), 0)],
            map (\<lambda>pt. of_real (2 * pi)
                       * (\<Sum>s\<leftarrow>[(1 - sqrt 2 / 2, - (sqrt 2 / 2), 0)]. contribution k pt s))
                points)"
  unfolding bowl_transducer_def exA_tiling exA_area
  by (simp add: exA_orient point_loop_sum mult.commute)

lemma contribution_explicit:
  "contribution k (p0, p1, p2)
     = (\<lambda>(x, y, z).
          let d = sqrt ((p0 - x)\<^sup>2 + (p1 - y)\<^sup>2 + (p2 - z)\<^sup>2)
          in if 0.001 < d then exp (\<i> * k * of_real d) / of_real (4 * pi * d) else 0)"
  by (auto simp: fun_eq_iff contribution_def dist_src_def monopole_def Let_def)

lemma field_explicit:
  "(\<lambda>pt. of_real a * (\<Sum>s\<leftarrow>srcs. contribution k pt s))
     = (\<lambda>(p0, p1, p2).
          of_real a
          * (\<Sum>(x, y, z)\<leftarrow>srcs.
               let d = sqrt ((p0 - x)\<^sup>2 + (p1 - y)\<^sup>2 + (p2 - z)\<^sup>2)
               in if 0.001 < d then exp (\<i> * k * of_real d) / of_real (4 * pi * d) else 0))"
proof (rule ext)
  fix pt :: vec3
  obtain p0 p1 p2 where pt: "pt = (p0, p1, p2)"
    by (cases pt) auto
  show "of_real a * (\<Sum>s\<leftarrow>srcs. contribution k pt s)
          = (case pt of (p0, p1, p2) \<Rightarrow>
               of_real a
               * (\<Sum>(x, y, z)\<leftarrow>srcs.
                    let d = sqrt ((p0 - x)\<^sup>2 + (p1 - y)\<^sup>2 + (p2 - z)\<^sup>2)
                    in if 0.001 < d then exp (\<i> * k * of_real d) / of_real (4 * pi * d)
                       else 0))"
    unfolding pt by (simp only: contribution_explicit prod.case)
qed

lemma area_element_of_tiling:
  assumes "tiling focal_length radius n_elements aperture_radius = Inr xyz"
    and "n_elements \<noteq> 0"
  shows "area_element focal_length radius n_elements aperture_radius
           = Fin (2 * pi * 1\<^sup>2 * (cos (arcsin (aperture_radius / focal_length))
                                 - cos (arcsin (radius / focal_length))) / of_int n_elements)"
proof -
  have "\<exists>M_theta. band_count focal_length radius n_elements aperture_radius = Inr M_theta"
    using assms(1)
    by (cases "band_count focal_length radius n_elements aperture_radius")
       (auto simp: tiling_def Let_def split: if_splits)
  then obtain t1 t2 where "theta1_of focal_length aperture_radius = Fin t1"
      "theta2_of focal_length radius = Fin t2"
    using band_count_Inr_D by blast
  then obtain a where "area_element focal_length radius n_elements aperture_radius = Fin a"
    using area_element_Fin_I assms(2) by blast
  then show ?thesis
    using area_element_Fin_D by force
qed

text \<open>
  C1, as the code has it. \<open>bowl_transducer\<close> returns the pair \<open>(c, p)\<close> exactly when
  the tiling returns, the orientation turns its sources into the arrays \<open>c\<close>, the
  source count is not zero, and \<open>p\<close> holds at every observation point the one weight
  \<open>a\<close> times the sum over all the sources of \<open>exp(i k d) / (4 pi d)\<close>, with \<open>d\<close>
  the distance from the source to the point and zero in place of the term when \<open>d\<close> is
  at most 0.001. The weight is the area of the cap of the sphere of radius
  \<open>r = 1.0\<close> between the polar angles \<open>arcsin (aperture_radius / focal_length)\<close> and
  \<open>arcsin (radius / focal_length)\<close>, divided by the requested source count: the area
  element of the unit sphere, not that of the bowl of radius \<open>focal_length\<close>.
\<close>

theorem bowl_transducer_field:
  "bowl_transducer k focal_length focus radius n_elements aperture_radius points axis = Inr (c, p)
   \<longleftrightarrow> (\<exists>xyz srcs a.
          tiling focal_length radius n_elements aperture_radius = Inr xyz
          \<and> orient axis focus xyz = Inr (NdArray srcs)
          \<and> c = NdArray srcs
          \<and> n_elements \<noteq> 0
          \<and> a = 2 * pi * 1\<^sup>2 * (cos (arcsin (aperture_radius / focal_length))
                                - cos (arcsin (radius / focal_length))) / of_int n_elements
          \<and> p = map (\<lambda>(p0, p1, p2).
                        of_real a
                        * (\<Sum>(x, y, z)\<leftarrow>srcs.
                             let d = sqrt ((p0 - x)\<^sup>2 + (p1 - y)\<^sup>2 + (p2 - z)\<^sup>2)
                             in if 0.001 < d
                                then exp (\<i> * k * of_real d) / of_real (4 * pi * d)
                                else 0))
                     points)"
proof -
  have "(tiling focal_length radius n_elements aperture_radius = Inr xyz
         \<and> orient axis focus xyz = Inr (NdArray srcs)
         \<and> c = NdArray srcs
         \<and> n_elements \<noteq> 0
         \<and> a = 2 * pi * (cos (arcsin (aperture_radius / focal_length))
                        - cos (arcsin (radius / focal_length))) / of_int n_elements
         \<and> area_element focal_length radius n_elements aperture_radius = Fin a
         \<and> p = q)
        \<longleftrightarrow>
        (tiling focal_length radius n_elements aperture_radius = Inr xyz
         \<and> orient axis focus xyz = Inr (NdArray srcs)
         \<and> c = NdArray srcs
         \<and> n_elements \<noteq> 0
         \<and> a = 2 * pi * 1\<^sup>2 * (cos (arcsin (aperture_radius / focal_length))
                               - cos (arcsin (radius / focal_length))) / of_int n_elements
         \<and> p = q)" for xyz srcs a q
    using area_element_of_tiling [of focal_length radius n_elements aperture_radius xyz]
    by auto
  then show ?thesis
    unfolding bowl_transducer_Inr_sum field_explicit by (simp only:)
qed

lemma exC_bowl:
  "bowl_transducer k 2 (2, 0, 0) 2 2 0 points ''x''
     = Inr (NdArray [(2 - sqrt 2, - sqrt 2, 0), (2 - sqrt 2, sqrt 2, 0)],
            map (\<lambda>pt. of_real pi
                       * (\<Sum>s\<leftarrow>[(2 - sqrt 2, - sqrt 2, 0), (2 - sqrt 2, sqrt 2, 0)].
                            contribution k pt s))
                points)"
  unfolding bowl_transducer_def exC_tiling exC_area
  by (simp add: exC_orient point_loop_sum mult.commute)

theorem bowl_transducer_field_witness:
  "bowl_transducer 1 2 (2, 0, 0) 2 2 0 [(0, 0, 0), (2, 0, 0)] ''x''
     = Inr (NdArray [(2 - sqrt 2, - sqrt 2, 0), (2 - sqrt 2, sqrt 2, 0)],
            map (\<lambda>(p0, p1, p2).
                   of_real pi
                   * (\<Sum>(x, y, z)\<leftarrow>[(2 - sqrt 2, - sqrt 2, 0), (2 - sqrt 2, sqrt 2, 0)].
                        let d = sqrt ((p0 - x)\<^sup>2 + (p1 - y)\<^sup>2 + (p2 - z)\<^sup>2)
                        in if 0.001 < d
                           then exp (\<i> * 1 * of_real d) / of_real (4 * pi * d)
                           else 0))
                [(0, 0, 0), (2, 0, 0)])"
proof -
  have a: "pi = 2 * pi * 1\<^sup>2 * (cos (arcsin (0 / 2)) - cos (arcsin (2 / 2))) / of_int 2"
    by simp
  show ?thesis
    apply (rule iffD2 [OF bowl_transducer_field])
    apply (rule exI [of _ "[(Fin (sqrt 2), Fin 0, Fin (sqrt 2)),
                            (Fin (- sqrt 2), Fin 0, Fin (sqrt 2))]"])
    apply (rule exI [of _ "[(2 - sqrt 2, - sqrt 2, 0), (2 - sqrt 2, sqrt 2, 0)]"])
    apply (rule exI [of _ pi])
    apply (intro conjI)
         apply (rule exC_tiling)
        apply (rule exC_orient)
       apply (rule refl)
      apply simp
     apply (rule a)
    apply (rule refl)
    done
qed

lemma exC_distance:
  "sqrt ((0 - (2 - sqrt 2))\<^sup>2 + (0 - (- sqrt 2))\<^sup>2 + (0 - 0)\<^sup>2) = sqrt (8 - 4 * sqrt 2)"
  "sqrt ((0 - (2 - sqrt 2))\<^sup>2 + (0 - sqrt 2)\<^sup>2 + (0 - 0)\<^sup>2) = sqrt (8 - 4 * sqrt 2)"
  by (simp_all add: power2_eq_square algebra_simps)

lemma exC_far: "0.001 < sqrt (8 - 4 * sqrt 2)"
proof -
  define D where "D = sqrt (8 - 4 * sqrt 2)"
  have "1 \<le> 8 - 4 * sqrt 2"
    using sqrt2_upper by simp
  then have "1 \<le> D"
    unfolding D_def by simp
  then have "0.001 < D"
    by simp
  then show ?thesis
    unfolding D_def .
qed

lemma exC_nonzero: "sqrt (8 - 4 * sqrt 2) \<noteq> 0"
proof -
  define D where "D = sqrt (8 - 4 * sqrt 2)"
  have "0.001 < D"
    unfolding D_def by (rule exC_far)
  then have "D \<noteq> 0"
    by simp
  then show ?thesis
    unfolding D_def .
qed

text \<open>
  C1, as the claim has it, fails. For focal length 2, radius 2, no aperture and two
  requested sources the bowl is a hemisphere of radius 2, of area \<open>8 pi\<close>: its area
  element is \<open>4 pi\<close> per source. The two sources lie at the same distance from the
  origin, and the pressure returned there is \<open>pi\<close> times the sum of their two monopole
  terms, not \<open>4 pi\<close> times it.
\<close>

theorem bowl_weight_not_bowl_area:
  "bowl_transducer 1 2 (2, 0, 0) 2 2 0 [(0, 0, 0)] ''x''
     = Inr (NdArray [(2 - sqrt 2, - sqrt 2, 0), (2 - sqrt 2, sqrt 2, 0)],
            [of_real pi
             * (exp (\<i> * 1 * of_real (sqrt (8 - 4 * sqrt 2)))
                  / of_real (4 * pi * sqrt (8 - 4 * sqrt 2))
                + exp (\<i> * 1 * of_real (sqrt (8 - 4 * sqrt 2)))
                    / of_real (4 * pi * sqrt (8 - 4 * sqrt 2)))])
   \<and> of_real pi
       * (exp (\<i> * 1 * of_real (sqrt (8 - 4 * sqrt 2)))
            / of_real (4 * pi * sqrt (8 - 4 * sqrt 2))
          + exp (\<i> * 1 * of_real (sqrt (8 - 4 * sqrt 2)))
              / of_real (4 * pi * sqrt (8 - 4 * sqrt 2)))
     \<noteq> of_real (2 * pi * 2\<^sup>2 * (cos (arcsin (0 / 2)) - cos (arcsin (2 / 2))) / 2)
       * (exp (\<i> * 1 * of_real (sqrt (8 - 4 * sqrt 2)))
            / of_real (4 * pi * sqrt (8 - 4 * sqrt 2))
          + exp (\<i> * 1 * of_real (sqrt (8 - 4 * sqrt 2)))
              / of_real (4 * pi * sqrt (8 - 4 * sqrt 2)))"
proof -
  define E where
    "E = exp (\<i> * 1 * of_real (sqrt (8 - 4 * sqrt 2)))
           / complex_of_real (4 * pi * sqrt (8 - 4 * sqrt 2))"
  have c1: "contribution 1 (0, 0, 0) (2 - sqrt 2, - sqrt 2, 0) = E"
    unfolding contribution_explicit prod.case Let_def exC_distance E_def
    using exC_far by (simp only: if_True)
  have c2: "contribution 1 (0, 0, 0) (2 - sqrt 2, sqrt 2, 0) = E"
    unfolding contribution_explicit prod.case Let_def exC_distance E_def
    using exC_far by (simp only: if_True)
  have run: "bowl_transducer 1 2 (2, 0, 0) 2 2 0 [(0, 0, 0)] ''x''
               = Inr (NdArray [(2 - sqrt 2, - sqrt 2, 0), (2 - sqrt 2, sqrt 2, 0)],
                      [of_real pi * (E + E)])"
    unfolding exC_bowl by (simp add: c1 c2)
  have "E \<noteq> 0"
    unfolding E_def using exC_nonzero by simp
  then have "E + E \<noteq> 0"
    by simp
  moreover have "2 * pi * 2\<^sup>2 * (cos (arcsin (0 / 2)) - cos (arcsin (2 / 2))) / 2 = 4 * pi"
    by simp
  moreover have "complex_of_real pi \<noteq> of_real (4 * pi)"
    unfolding of_real_eq_iff by simp
  ultimately have "of_real pi * (E + E)
                     \<noteq> of_real (2 * pi * 2\<^sup>2 * (cos (arcsin (0 / 2)) - cos (arcsin (2 / 2))) / 2)
                       * (E + E)"
    by (simp only: mult_cancel_right) simp
  with run show ?thesis
    unfolding E_def by blast
qed

section \<open>A band count of zero\<close>

lemma band_count_not_zero_division:
  "band_count focal_length radius n_elements aperture_radius \<noteq> Inl ZeroDivisionError"
  by (simp add: band_count_def Let_def np_int_not_zero_division)

lemma orient_empty:
  "py_in axis ''z'' \<or> py_in axis ''x'' \<Longrightarrow> orient axis focus [] = Inr (NdArray [])"
  by (auto simp: orient_def)

text \<open>
  C10, as the code has it. The division by the band count is a numpy division and does
  not raise. For a nonzero focal length the tiling never raises ZeroDivisionError; when
  the band count rounds to zero (or below) the loop over the bands is empty and the
  tiling returns no sources, and \<open>bowl_transducer\<close> returns the empty source arrays
  with a field that is zero at every observation point.
\<close>

theorem zero_bands_empty_tiling:
  assumes "focal_length \<noteq> 0"
  shows "tiling focal_length radius n_elements aperture_radius \<noteq> Inl ZeroDivisionError
         \<and> (\<forall>M_theta. band_count focal_length radius n_elements aperture_radius = Inr M_theta
                \<and> M_theta \<le> 0
              \<longrightarrow> tiling focal_length radius n_elements aperture_radius = Inr []
                  \<and> (n_elements \<noteq> 0 \<and> (axis = ''x'' \<or> axis = ''z'')
                     \<longrightarrow> bowl_transducer k focal_length focus radius n_elements aperture_radius
                           points axis
                         = Inr (NdArray [], map (\<lambda>pt. 0) points)))"
proof (intro conjI allI impI)
  show "tiling focal_length radius n_elements aperture_radius \<noteq> Inl ZeroDivisionError"
    using tiling_raises_D [of focal_length radius n_elements aperture_radius ZeroDivisionError]
          assms band_count_not_zero_division
    by blast
next
  fix M_theta
  assume h: "band_count focal_length radius n_elements aperture_radius = Inr M_theta
             \<and> M_theta \<le> 0"
  then show t: "tiling focal_length radius n_elements aperture_radius = Inr []"
    using tiling_returns [OF assms, of radius n_elements aperture_radius M_theta] by auto
  assume n: "n_elements \<noteq> 0 \<and> (axis = ''x'' \<or> axis = ''z'')"
  obtain t1 t2 where "theta1_of focal_length aperture_radius = Fin t1"
      "theta2_of focal_length radius = Fin t2"
    using band_count_Inr_D h by blast
  then obtain a where a: "area_element focal_length radius n_elements aperture_radius = Fin a"
    using area_element_Fin_I n by blast
  have o: "orient axis focus [] = Inr (NdArray [])"
    using n by (intro orient_empty) auto
  show "bowl_transducer k focal_length focus radius n_elements aperture_radius points axis
          = Inr (NdArray [], map (\<lambda>pt. 0) points)"
    unfolding bowl_transducer_def t by (simp add: o a point_loop_sum)
qed

theorem zero_bands_empty_tiling_witness:
  "(10::real) \<noteq> 0 \<and> band_count 10 7 1 5 = Inr 0 \<and> (0::int) \<le> 0 \<and> (1::int) \<noteq> 0
   \<and> tiling 10 7 1 5 \<noteq> Inl ZeroDivisionError
   \<and> tiling 10 7 1 5 = Inr []
   \<and> bowl_transducer 3 10 (10, 0, 0) 7 1 5 [(1, 0, 0), (2, 0, 0)] ''z''
        = Inr (NdArray [], [0, 0])"
  using zero_bands_empty_tiling [of 10 7 1 5 "''z''" 3 "(10, 0, 0)" "[(1, 0, 0), (2, 0, 0)]"]
        exB_band_count
  by simp

text \<open>
  C10, as the claim has it, fails. For focal length 10, radius 7, aperture radius 5 and
  one requested source the band count is 0, and \<open>bowl_transducer\<close> raises nothing: it
  returns an empty source set and a zero field.
\<close>

theorem zero_bands_do_not_raise:
  "band_count 10 7 1 5 = Inr 0
   \<and> tiling 10 7 1 5 = Inr []
   \<and> bowl_transducer 1 10 (10, 0, 0) 7 1 5 [(0, 0, 0)] ''x'' = Inr (NdArray [], [0])"
proof -
  have "orient ''x'' (10, 0, 0) [] = Inr (NdArray [])"
    by (simp add: orient_def)
  then have "bowl_transducer 1 10 (10, 0, 0) 7 1 5 [(0, 0, 0)] ''x'' = Inr (NdArray [], [0])"
    unfolding bowl_transducer_def exB_tiling exB_area by simp
  then show ?thesis
    by (simp add: exB_band_count exB_tiling)
qed

section \<open>Power calibration\<close>

lemma x_location_disk_real:
  "radius\<^sup>2 \<le> focal_length\<^sup>2 \<Longrightarrow>
   x_location_disk focal_length radius
     = Fin (focal_length - 0.98 * sqrt (focal_length\<^sup>2 - radius\<^sup>2))"
  by (simp add: x_location_disk_def np_sub_def)

text \<open>
  C3, as the code has it. With the focus at axial coordinate \<open>focal_length\<close> (the
  script's \<open>focus = [roc, 0, 0]\<close>) the rim of the bowl lies in the plane
  \<open>focal_length - sqrt (focal_length\<^sup>2 - radius\<^sup>2)\<close>. For a bowl with
  \<open>0 \<le> radius < focal_length\<close> the calibration disk lies strictly between the rim
  plane and the focus, and its distance to the focus is 49 times its distance to the rim
  plane: the disk sits just in front of the rim, 2 percent of the way to the focus.
\<close>

theorem disk_beside_rim:
  assumes "0 \<le> radius" and "radius < focal_length"
  shows "\<exists>x_disk. x_location_disk focal_length radius = Fin x_disk
           \<and> focal_length - sqrt (focal_length\<^sup>2 - radius\<^sup>2) < x_disk
           \<and> x_disk < focal_length
           \<and> focal_length - x_disk = 49 * (x_disk - (focal_length - sqrt (focal_length\<^sup>2 - radius\<^sup>2)))"
proof -
  have le: "radius\<^sup>2 < focal_length\<^sup>2"
    using assms by (simp add: power_strict_mono)
  then have pos: "0 < sqrt (focal_length\<^sup>2 - radius\<^sup>2)"
    by simp
  show ?thesis
    using pos le by (simp add: x_location_disk_real)
qed

theorem disk_beside_rim_witness:
  "(0::real) \<le> 3 \<and> (3::real) < 5
   \<and> (\<exists>x_disk. x_location_disk 5 3 = Fin x_disk
         \<and> 5 - sqrt (5\<^sup>2 - 3\<^sup>2) < x_disk \<and> x_disk < 5
         \<and> 5 - x_disk = 49 * (x_disk - (5 - sqrt (5\<^sup>2 - 3\<^sup>2))))"
  using disk_beside_rim [of 3 5] by simp

text \<open>
  C3, as the claim has it, fails. For focal length 5 and radius 3 the focus is at 5, the
  rim plane at 1 and the vertex of the bowl at 0; the disk is at 1.08. It is not nearer
  to the focus than to the rim plane, and not even nearer to the focus than to the
  vertex of the bowl.
\<close>

theorem disk_not_near_focus:
  "x_location_disk 5 3 = Fin (27 / 25)
   \<and> \<not> (5 - 27 / 25 < 27 / 25 - (1::real))
   \<and> \<not> (5 - 27 / 25 < 27 / 25 - (0::real))"
proof -
  have "sqrt (5\<^sup>2 - 3\<^sup>2) = (4::real)"
    by (rule real_sqrt_unique) simp_all
  then show ?thesis
    by (simp add: x_location_disk_def np_sub_def)
qed

text \<open>
  C8. \<open>normalise_power\<close> hands only the real part of \<open>k1\<close> to
  \<open>bowl_transducer\<close>: its result is the one obtained for the real wavenumber
  \<open>Re k1\<close>, whatever the imaginary (attenuation) part is, and for a real \<open>k1\<close> that
  is the result for \<open>k1\<close> itself.
\<close>

theorem normalise_power_real_part:
  "normalise_power target_power rho c0 radius k1 focal_length focus n_elements aperture_radius
     = normalise_power target_power rho c0 radius (of_real (Re k1)) focal_length focus
         n_elements aperture_radius"
  unfolding normalise_power_def Re_complex_of_real ..

theorem normalise_power_real_part_witness:
  "normalise_power 44 998 1487 1 (Complex 2 3) 1 (1, 0, 0) 1 0
     = normalise_power 44 998 1487 1 (of_real 2) 1 (1, 0, 0) 1 0"
  using normalise_power_real_part [of 44 998 1487 1 "Complex 2 3" 1 "(1, 0, 0)" 1 0]
  by simp

subsection \<open>The quadrature\<close>

lemma eval_source_length:
  "eval_source c points k = Inr q \<Longrightarrow> length q = length points"
  using eval_source_PyList by (cases c) (auto simp: point_loop_sum)

lemma bowl_transducer_length:
  assumes "bowl_transducer k focal_length focus radius n_elements aperture_radius points axis
             = Inr (c, p)"
  shows "length p = length points"
  using assms unfolding bowl_transducer_Inr_iff by (auto dest: eval_source_length)

lemma linspace_from_zero:
  "linspace 0 radius n_quad = map (\<lambda>i. real i * radius / 499) [0..<500]"
  by (simp add: linspace_def n_quad_def)

lemma length_points_quad: "length (points_quad x_disk (linspace 0 radius n_quad)) = 500"
  by (simp add: points_quad_def linspace_def n_quad_def)

lemma sum_list_map2_upt:
  assumes "length ps = n"
  shows "sum_list (map2 f ps (map g [0..<n])) = (\<Sum>i<n. f (ps ! i) (g i) :: real)"
proof -
  have "sum_list (map2 f ps (map g [0..<n]))
          = (\<Sum>i = 0..<n. map2 f ps (map g [0..<n]) ! i)"
    using assms by (simp add: sum_list_sum_nth)
  also have "\<dots> = (\<Sum>i = 0..<n. f (ps ! i) (g i))"
    using assms by (intro sum.cong) simp_all
  finally show ?thesis
    by (simp add: atLeast0LessThan)
qed

lemma quadrature_sum:
  assumes "length p = 500"
  shows "quadrature radius (linspace 0 radius n_quad) p
           = 2 * pi * (\<Sum>i<500. (cmod (p ! i))\<^sup>2 * (real i * radius / 499)) * radius / 500"
  unfolding quadrature_def linspace_from_zero
  by (simp add: sum_list_map2_upt [OF assms] n_quad_def)

lemma quadrature_nonneg:
  assumes "length p = 500"
  shows "0 \<le> quadrature radius (linspace 0 radius n_quad) p"
proof -
  define S where "S = (\<Sum>i<500. (cmod (p ! i))\<^sup>2 * (real i * radius / 499))"
  have nn: "0 \<le> S * radius"
    unfolding S_def sum_distrib_right
    by (intro sum_nonneg) (simp add: mult.assoc zero_le_mult_iff)
  have c: "0 \<le> 2 * pi / 500"
    by simp
  have "0 \<le> 2 * pi / 500 * (S * radius)"
    by (rule mult_nonneg_nonneg [OF c nn])
  moreover have "quadrature radius (linspace 0 radius n_quad) p = 2 * pi / 500 * (S * radius)"
    unfolding quadrature_sum [OF assms] S_def [symmetric] by simp
  ultimately show ?thesis
    by simp
qed

lemma quadrature_scale:
  assumes "length p = 500"
  shows "quadrature radius (linspace 0 radius n_quad) (map (\<lambda>v. of_real p0 * v) p)
           = p0\<^sup>2 * quadrature radius (linspace 0 radius n_quad) p"
proof -
  define S where "S = (\<Sum>i<500. (cmod (p ! i))\<^sup>2 * (real i * radius / 499))"
  define S' where
    "S' = (\<Sum>i<500. (cmod (map (\<lambda>v. of_real p0 * v) p ! i))\<^sup>2 * (real i * radius / 499))"
  have "S' = (\<Sum>i<500. p0\<^sup>2 * ((cmod (p ! i))\<^sup>2 * (real i * radius / 499)))"
    unfolding S'_def using assms
    by (intro sum.cong) (simp_all add: norm_mult power_mult_distrib)
  then have "S' = p0\<^sup>2 * S"
    unfolding S_def by (simp only: sum_distrib_left)
  moreover have "length (map (\<lambda>v. of_real p0 * v) p) = 500"
    using assms by simp
  ultimately show ?thesis
    unfolding quadrature_sum [OF assms] quadrature_sum [OF \<open>length (map _ p) = 500\<close>]
              S_def [symmetric] S'_def [symmetric]
    by simp
qed

lemma normalise_power_eval:
  assumes "x_location_disk focal_length radius = Fin x_disk"
    and "bowl_transducer (of_real (Re k1)) focal_length focus radius n_elements aperture_radius
           (points_quad x_disk (linspace 0 radius n_quad)) ''x'' = Inr (xyz, p)"
  shows "normalise_power target_power rho c0 radius k1 focal_length focus n_elements
           aperture_radius
         = Inr (np_sqrt (np_div (Fin (2 * rho * c0 * target_power))
                                (Fin (quadrature radius (linspace 0 radius n_quad) p))))"
  using assms by (simp add: normalise_power_def Let_def)

lemma np_sqrt_div_Fin:
  "0 < I \<Longrightarrow> 0 \<le> x \<Longrightarrow> np_sqrt (np_div (Fin x) (Fin I)) = Fin (sqrt (x / I))"
  by (simp add: not_less)

text \<open>
  C4. When the disk coordinate is finite and \<open>bowl_transducer\<close> returns the field
  \<open>p\<close> on the quadrature points, these are the 500 points
  \<open>(x_disk, 0, i * radius / 499)\<close>, and \<open>normalise_power\<close> returns the square root
  of \<open>2 * rho * c0 * power / integral\<close> with
  \<open>integral = 2 pi (\<Sum>i<500. |p i|\<^sup>2 r i) radius / 500\<close>, computed with numpy's
  division and square root; for a positive integral and a radicand that is not negative
  that is the real square root.
\<close>

theorem normalise_power_formula:
  assumes "x_location_disk focal_length radius = Fin x_disk"
    and "bowl_transducer (of_real (Re k1)) focal_length focus radius n_elements aperture_radius
           (points_quad x_disk (linspace 0 radius n_quad)) ''x'' = Inr (xyz, p)"
  shows "n_quad = 500 \<and> length p = 500
         \<and> points_quad x_disk (linspace 0 radius n_quad)
             = map (\<lambda>i. (x_disk, 0, real i * radius / 499)) [0..<500]
         \<and> (let integral = 2 * pi * (\<Sum>i<500. (cmod (p ! i))\<^sup>2 * (real i * radius / 499))
                              * radius / 500
            in normalise_power target_power rho c0 radius k1 focal_length focus n_elements
                 aperture_radius
               = Inr (np_sqrt (np_div (Fin (2 * rho * c0 * target_power)) (Fin integral)))
               \<and> (0 < integral \<and> 0 \<le> 2 * rho * c0 * target_power
                  \<longrightarrow> normalise_power target_power rho c0 radius k1 focal_length focus
                        n_elements aperture_radius
                      = Inr (Fin (sqrt (2 * rho * c0 * target_power / integral)))))"
proof -
  have len: "length p = 500"
    using bowl_transducer_length [OF assms(2)] by (simp add: length_points_quad)
  have pts: "points_quad x_disk (linspace 0 radius n_quad)
               = map (\<lambda>i. (x_disk, 0, real i * radius / 499)) [0..<500]"
    unfolding linspace_from_zero points_quad_def by simp
  define integral where
    "integral = 2 * pi * (\<Sum>i<500. (cmod (p ! i))\<^sup>2 * (real i * radius / 499)) * radius / 500"
  have ev: "normalise_power target_power rho c0 radius k1 focal_length focus n_elements
              aperture_radius
            = Inr (np_sqrt (np_div (Fin (2 * rho * c0 * target_power)) (Fin integral)))"
    using normalise_power_eval [OF assms, of target_power rho c0]
    unfolding quadrature_sum [OF len] integral_def .
  have "0 < integral \<and> 0 \<le> 2 * rho * c0 * target_power
        \<longrightarrow> normalise_power target_power rho c0 radius k1 focal_length focus n_elements
              aperture_radius
            = Inr (Fin (sqrt (2 * rho * c0 * target_power / integral)))"
    unfolding ev using np_sqrt_div_Fin [of integral "2 * rho * c0 * target_power"] by blast
  then show ?thesis
    using len pts ev unfolding Let_def integral_def [symmetric]
    by (simp add: n_quad_def)
qed

text \<open>
  C5. For a positive target power (and a medium of positive density and sound speed),
  when the quadrature of the calibration field is not zero, \<open>normalise_power\<close>
  returns a finite amplitude \<open>p0\<close>, and the same quadrature of the field scaled by
  \<open>p0\<close>, divided by \<open>2 * rho * c0\<close>, is the target power.
\<close>

theorem power_round_trip:
  assumes "0 < target_power" and "0 < rho" and "0 < c0"
    and "x_location_disk focal_length radius = Fin x_disk"
    and "bowl_transducer (of_real (Re k1)) focal_length focus radius n_elements aperture_radius
           (points_quad x_disk (linspace 0 radius n_quad)) ''x'' = Inr (xyz, p_quad)"
    and "quadrature radius (linspace 0 radius n_quad) p_quad \<noteq> 0"
  shows "\<exists>p0. normalise_power target_power rho c0 radius k1 focal_length focus n_elements
                aperture_radius = Inr (Fin p0)
              \<and> quadrature radius (linspace 0 radius n_quad) (map (\<lambda>v. of_real p0 * v) p_quad)
                  / (2 * rho * c0) = target_power
              \<and> p0\<^sup>2 * quadrature radius (linspace 0 radius n_quad) p_quad / (2 * rho * c0)
                  = target_power"
proof -
  define I where "I = quadrature radius (linspace 0 radius n_quad) p_quad"
  define p0 where "p0 = sqrt (2 * rho * c0 * target_power / I)"
  have len: "length p_quad = 500"
    using bowl_transducer_length [OF assms(5)] by (simp add: length_points_quad)
  have I: "0 < I"
    using quadrature_nonneg [OF len, of radius] assms(6) unfolding I_def by simp
  have num: "0 < 2 * rho * c0 * target_power"
    using assms(1-3) by simp
  have "normalise_power target_power rho c0 radius k1 focal_length focus n_elements
          aperture_radius = Inr (Fin p0)"
    using normalise_power_eval [OF assms(4,5), of target_power rho c0] I num
    unfolding I_def [symmetric] p0_def by (simp only: np_sqrt_div_Fin less_imp_le)
  moreover have sq: "p0\<^sup>2 = 2 * rho * c0 * target_power / I"
    unfolding p0_def using I num by simp
  have "p0\<^sup>2 * I / (2 * rho * c0) = target_power"
    unfolding sq using I assms(2,3) by simp
  ultimately show ?thesis
    unfolding quadrature_scale [OF len] I_def [symmetric] by blast
qed

subsection \<open>The calibration of the one-source bowl\<close>

lemma exA_disk: "x_location_disk 1 1 = Fin 1"
  by (simp add: x_location_disk_def np_sub_def)

lemma monopole_nonzero: "d \<noteq> 0 \<Longrightarrow> monopole k d \<noteq> 0"
  by (simp add: monopole_def)

lemma exA_rim_point: "points_quad 1 (linspace 0 1 n_quad) ! 499 = (1, 0, 1)"
  unfolding linspace_from_zero points_quad_def by simp

lemma exA_rim_dist: "dist_src (1, 0, 1) (1 - sqrt 2 / 2, - (sqrt 2 / 2), 0) = sqrt 2"
proof -
  have "(sqrt 2 / 2)\<^sup>2 = 1 / 2"
    by (simp add: power_divide)
  then show ?thesis
    by (simp add: dist_src_def)
qed

lemma exA_rim_contribution:
  "contribution k (1, 0, 1) (1 - sqrt 2 / 2, - (sqrt 2 / 2), 0) \<noteq> 0"
proof -
  have "0.001 < sqrt 2"
    using sqrt2_lower by simp
  then show ?thesis
    by (simp add: contribution_def exA_rim_dist monopole_nonzero)
qed

lemma quadrature_pos:
  assumes "length p = 500" and "0 < radius" and "p ! 499 \<noteq> 0"
  shows "0 < quadrature radius (linspace 0 radius n_quad) p"
proof -
  define f where "f = (\<lambda>i. (cmod (p ! i))\<^sup>2 * (real i * radius / 499))"
  have "f 499 \<le> sum f {..<500}"
    using assms(2) by (intro member_le_sum) (simp_all add: f_def)
  moreover have "0 < f 499"
    using assms(2,3) by (simp add: f_def)
  ultimately have "0 < sum f {..<500}"
    by simp
  then have "0 < 2 * pi * sum f {..<500} * radius / 500"
    using assms(2) by simp
  then show ?thesis
    unfolding quadrature_sum [OF assms(1)] f_def .
qed

lemma exA_field:
  "\<exists>p. bowl_transducer k 1 (1, 0, 0) 1 1 0 (points_quad 1 (linspace 0 1 n_quad)) ''x''
          = Inr (NdArray [(1 - sqrt 2 / 2, - (sqrt 2 / 2), 0)], p)
       \<and> length p = 500 \<and> p ! 499 \<noteq> 0"
proof -
  have "length (points_quad 1 (linspace 0 1 n_quad)) = 500"
    by (rule length_points_quad)
  then show ?thesis
    unfolding exA_bowl
    by (simp add: exA_rim_point exA_rim_contribution)
qed

theorem normalise_power_formula_witness:
  "x_location_disk 1 1 = Fin 1
   \<and> (\<exists>xyz p. bowl_transducer (of_real (Re (Complex 2 3))) 1 (1, 0, 0) 1 1 0
                 (points_quad 1 (linspace 0 1 n_quad)) ''x'' = Inr (xyz, p)
             \<and> length p = 500
             \<and> normalise_power 44 998 1487 1 (Complex 2 3) 1 (1, 0, 0) 1 0
                 = Inr (np_sqrt (np_div (Fin (2 * 998 * 1487 * 44))
                          (Fin (2 * pi * (\<Sum>i<500. (cmod (p ! i))\<^sup>2 * (real i * 1 / 499))
                                  * 1 / 500)))))"
proof -
  obtain p where b: "bowl_transducer (of_real (Re (Complex 2 3))) 1 (1, 0, 0) 1 1 0
                       (points_quad 1 (linspace 0 1 n_quad)) ''x''
                     = Inr (NdArray [(1 - sqrt 2 / 2, - (sqrt 2 / 2), 0)], p)"
    using exA_field by blast
  from normalise_power_formula [OF exA_disk b, of 44 998 1487]
  have "length p = 500
        \<and> normalise_power 44 998 1487 1 (Complex 2 3) 1 (1, 0, 0) 1 0
            = Inr (np_sqrt (np_div (Fin (2 * 998 * 1487 * 44))
                     (Fin (2 * pi * (\<Sum>i<500. (cmod (p ! i))\<^sup>2 * (real i * 1 / 499))
                             * 1 / 500))))"
    unfolding Let_def by blast
  with b exA_disk show ?thesis
    by blast
qed

theorem power_round_trip_witness:
  "(0::real) < 44 \<and> (0::real) < 998 \<and> (0::real) < 1487 \<and> x_location_disk 1 1 = Fin 1
   \<and> (\<exists>xyz p_quad p0.
         bowl_transducer (of_real (Re (Complex 2 3))) 1 (1, 0, 0) 1 1 0
           (points_quad 1 (linspace 0 1 n_quad)) ''x'' = Inr (xyz, p_quad)
       \<and> quadrature 1 (linspace 0 1 n_quad) p_quad \<noteq> 0
       \<and> normalise_power 44 998 1487 1 (Complex 2 3) 1 (1, 0, 0) 1 0 = Inr (Fin p0)
       \<and> quadrature 1 (linspace 0 1 n_quad) (map (\<lambda>v. of_real p0 * v) p_quad)
           / (2 * 998 * 1487) = 44)"
proof -
  obtain p where b: "bowl_transducer (of_real (Re (Complex 2 3))) 1 (1, 0, 0) 1 1 0
                       (points_quad 1 (linspace 0 1 n_quad)) ''x''
                     = Inr (NdArray [(1 - sqrt 2 / 2, - (sqrt 2 / 2), 0)], p)"
      and len: "length p = 500" and nz: "p ! 499 \<noteq> 0"
    using exA_field by blast
  have q: "quadrature 1 (linspace 0 1 n_quad) p \<noteq> 0"
    using quadrature_pos [OF len _ nz, of 1] by simp
  have "(0::real) < 44" "(0::real) < 998" "(0::real) < 1487"
    by simp_all
  from power_round_trip [OF this exA_disk b q]
  obtain p0 where "normalise_power 44 998 1487 1 (Complex 2 3) 1 (1, 0, 0) 1 0 = Inr (Fin p0)"
      "quadrature 1 (linspace 0 1 n_quad) (map (\<lambda>v. of_real p0 * v) p) / (2 * 998 * 1487) = 44"
    by blast
  with b q exA_disk show ?thesis
    by (intro conjI exI [of _ "NdArray [(1 - sqrt 2 / 2, - (sqrt 2 / 2), 0)]"]
              exI [of _ p] exI [of _ p0]) simp_all
qed

section \<open>The harmonic cascade\<close>

lemma bind_Inr [simp]: "bind (Inr v) f = f v"
  by (simp add: bind_def)

lemma bind_Inl [simp]: "bind (Inl e) f = Inl e"
  by (simp add: bind_def)

lemma harmonic_loop_append:
  "harmonic_loop ops r L M N c rho alpha0 eta beta f1 (xs @ ys) st
     = bind (harmonic_loop ops r L M N c rho alpha0 eta beta f1 xs st)
            (harmonic_loop ops r L M N c rho alpha0 eta beta f1 ys)"
proof (induction xs arbitrary: st)
  case Nil
  show ?case by simp
next
  case (Cons x xs)
  show ?case
    by (cases "harmonic_step ops r L M N c rho alpha0 eta beta f1 x st") (simp_all add: Cons.IH)
qed

lemma small_index: "1 \<le> h \<Longrightarrow> h \<le> 4 \<Longrightarrow> h = 1 \<or> h = 2 \<or> h = 3 \<or> h = (4::nat)"
  by arith

text \<open>The forcing of harmonic \<open>h\<close> reads the stack below index \<open>h\<close> only.\<close>

lemma forcing_local:
  assumes "1 \<le> h" and "h \<le> 4" and "length Q = length P" and "\<forall>j<h. Q ! j = P ! j"
  shows "forcing beta omega rho c h Q xIn = forcing beta omega rho c h P xIn'"
proof -
  from small_index [OF assms(1,2)] show ?thesis
  proof (elim disjE)
    assume h: "h = 1"
    then have "Q ! 0 = P ! 0"
      using assms(4) by simp
    then show ?thesis
      using assms(3) by (simp add: h forcing_def getitem_def)
  next
    assume h: "h = 2"
    then have "Q ! 0 = P ! 0" "Q ! 1 = P ! 1"
      using assms(4) by simp_all
    then show ?thesis
      using assms(3) by (simp add: h forcing_def getitem_def)
  next
    assume h: "h = 3"
    then have "Q ! 0 = P ! 0" "Q ! 1 = P ! 1" "Q ! 2 = P ! 2"
      using assms(4) by simp_all
    then show ?thesis
      using assms(3) by (simp add: h forcing_def getitem_def)
  next
    assume h: "h = 4"
    then have "Q ! 0 = P ! 0" "Q ! 1 = P ! 1" "Q ! 2 = P ! 2" "Q ! 3 = P ! 3"
      using assms(4) by simp_all
    then show ?thesis
      using assms(3) by (simp add: h forcing_def getitem_def)
  qed
qed

lemma forcing_defined:
  assumes "1 \<le> h" and "h \<le> 4" and "h < length P" and "rho \<noteq> 0" and "c \<noteq> 0"
  shows "\<exists>x. forcing beta omega rho c h P xIn = Inr (Some x)"
proof -
  from small_index [OF assms(1,2)] show ?thesis
    using assms(3-5) by (elim disjE) (auto simp: forcing_def getitem_def coefficient_def)
qed

lemma forcing_stale: "4 < h \<Longrightarrow> forcing beta omega rho c h P xIn = Inr xIn"
  by (simp add: forcing_def)

lemma wavenumber_k2:
  "c \<noteq> 0 \<Longrightarrow> wavenumber ((real h + 1) * f1) c alpha0 eta = Inr (k2 f1 c alpha0 eta h)"
  by (simp add: wavenumber_def k2_def)

lemma harmonic_step_returns:
  assumes "c \<noteq> 0" and "rho \<noteq> 0" and "1 \<le> h" and "h < length P"
    and "h = 1 \<or> forcing beta (2 * pi * f1) rho c (min (h - 1) 4) P None = Inr xIn"
  shows "\<exists>x. forcing beta (2 * pi * f1) rho c (min h 4) P None = Inr (Some x)
           \<and> harmonic_step ops r L M N c rho alpha0 eta beta f1 h (P, xIn, built)
               = Inr (P[h := mvp_volume_potential ops x
                                (circ_op ops r L M N (k2 f1 c alpha0 eta h))
                                (\<lambda>v. True) (\<lambda>v. 1)],
                      Some x, built @ [k2 f1 c alpha0 eta h])"
proof -
  have "\<exists>x. forcing beta (2 * pi * f1) rho c (min h 4) P None = Inr (Some x)
          \<and> forcing beta (2 * pi * f1) rho c h P xIn = Inr (Some x)"
  proof (cases "h \<le> 4")
    case True
    obtain x where "forcing beta (2 * pi * f1) rho c h P xIn = Inr (Some x)"
      using forcing_defined [OF assms(3) True assms(4,2,1)] by blast
    moreover have "forcing beta (2 * pi * f1) rho c h P None
                     = forcing beta (2 * pi * f1) rho c h P xIn"
      by (rule forcing_local [OF assms(3) True]) simp_all
    ultimately show ?thesis
      using True by (simp add: min_def)
  next
    case False
    then have m: "min (h - 1) 4 = 4" "min h 4 = 4" "h \<noteq> 1"
      by simp_all
    obtain x where "forcing beta (2 * pi * f1) rho c 4 P None = Inr (Some x)"
      using forcing_defined [of 4 P rho c beta "2 * pi * f1" None] assms(1,2,4) False by auto
    moreover have "forcing beta (2 * pi * f1) rho c h P xIn = Inr xIn"
      using False by (intro forcing_stale) simp
    ultimately show ?thesis
      using assms(5) m(3) unfolding m(1,2) by auto
  qed
  then obtain x where x: "forcing beta (2 * pi * f1) rho c (min h 4) P None = Inr (Some x)"
      "forcing beta (2 * pi * f1) rho c h P xIn = Inr (Some x)"
    by blast
  have "harmonic_step ops r L M N c rho alpha0 eta beta f1 h (P, xIn, built)
          = Inr (P[h := mvp_volume_potential ops x
                           (circ_op ops r L M N (k2 f1 c alpha0 eta h))
                           (\<lambda>v. True) (\<lambda>v. 1)],
                 Some x, built @ [k2 f1 c alpha0 eta h])"
    using assms(1,4)
    by (simp add: harmonic_step_def Let_def wavenumber_k2 x(2) setitem_def circ_op_def)
  with x(1) show ?thesis
    by blast
qed

lemma bind_return: "bind m Inr = m"
  by (cases m) simp_all

lemma harmonic_loop_single:
  "harmonic_loop ops r L M N c rho alpha0 eta beta f1 [h] st
     = harmonic_step ops r L M N c rho alpha0 eta beta f1 h st"
  by (cases "harmonic_step ops r L M N c rho alpha0 eta beta f1 h st") simp_all

lemma forcing_update:
  assumes "1 \<le> h" and "h \<le> b"
  shows "forcing beta omega rho c (min h 4) (P[b := v]) xIn
           = forcing beta omega rho c (min h 4) P xIn"
  using assms by (intro forcing_local) simp_all

lemma harmonic_loop_invariant:
  assumes "c \<noteq> 0" and "rho \<noteq> 0" and "1 \<le> b"
  shows "b \<le> length P0 \<longrightarrow>
         (\<exists>P xIn. harmonic_loop ops r L M N c rho alpha0 eta beta f1 [1..<b] (P0, None, [])
                    = Inr (P, xIn, map (k2 f1 c alpha0 eta) [1..<b])
                \<and> length P = length P0 \<and> P ! 0 = P0 ! 0
                \<and> (b = 1 \<or> forcing beta (2 * pi * f1) rho c (min (b - 1) 4) P None = Inr xIn)
                \<and> (\<forall>h. 1 \<le> h \<and> h < b \<longrightarrow>
                      (\<exists>x. forcing beta (2 * pi * f1) rho c (min h 4) P None = Inr (Some x)
                          \<and> P ! h = mvp_volume_potential ops x
                                      (circ_op ops r L M N (k2 f1 c alpha0 eta h))
                                      (\<lambda>v. True) (\<lambda>v. 1))))"
  using assms(3)
proof (induction b rule: nat_induct_at_least)
  case base
  show ?case by simp
next
  case (Suc b)
  show ?case
  proof
    assume len: "Suc b \<le> length P0"
    then obtain P xIn where
      run: "harmonic_loop ops r L M N c rho alpha0 eta beta f1 [1..<b] (P0, None, [])
              = Inr (P, xIn, map (k2 f1 c alpha0 eta) [1..<b])"
      and lP: "length P = length P0" and P0: "P ! 0 = P0 ! 0"
      and prev: "b = 1 \<or> forcing beta (2 * pi * f1) rho c (min (b - 1) 4) P None = Inr xIn"
      and sofar: "\<forall>h. 1 \<le> h \<and> h < b \<longrightarrow>
                   (\<exists>x. forcing beta (2 * pi * f1) rho c (min h 4) P None = Inr (Some x)
                       \<and> P ! h = mvp_volume_potential ops x
                                   (circ_op ops r L M N (k2 f1 c alpha0 eta h))
                                   (\<lambda>v. True) (\<lambda>v. 1))"
      using Suc.IH by auto
    have bl: "b < length P"
      using len lP by simp
    obtain x where
      fx: "forcing beta (2 * pi * f1) rho c (min b 4) P None = Inr (Some x)"
      and step: "harmonic_step ops r L M N c rho alpha0 eta beta f1 b
                   (P, xIn, map (k2 f1 c alpha0 eta) [1..<b])
                 = Inr (P[b := mvp_volume_potential ops x
                                  (circ_op ops r L M N (k2 f1 c alpha0 eta b))
                                  (\<lambda>v. True) (\<lambda>v. 1)],
                        Some x, map (k2 f1 c alpha0 eta) [1..<b] @ [k2 f1 c alpha0 eta b])"
      using harmonic_step_returns [OF assms(1,2) Suc.hyps bl prev,
              where ops = ops and r = r and L = L and M = M and N = N and ?alpha0.0 = alpha0
                and eta = eta and built = "map (k2 f1 c alpha0 eta) [1..<b]"]
      by blast
    define P' where
      "P' = P[b := mvp_volume_potential ops x (circ_op ops r L M N (k2 f1 c alpha0 eta b))
                     (\<lambda>v. True) (\<lambda>v. 1)]"
    have upt: "[1..<Suc b] = [1..<b] @ [b]"
      using Suc.hyps by simp
    have run': "harmonic_loop ops r L M N c rho alpha0 eta beta f1 [1..<Suc b] (P0, None, [])
                  = Inr (P', Some x, map (k2 f1 c alpha0 eta) [1..<Suc b])"
      unfolding upt harmonic_loop_append run bind_Inr harmonic_loop_single step P'_def
      by simp
    have keep: "forcing beta (2 * pi * f1) rho c (min h 4) P' None
                  = forcing beta (2 * pi * f1) rho c (min h 4) P None"
      if "1 \<le> h" "h \<le> b" for h
      unfolding P'_def using that by (rule forcing_update)
    have new: "forcing beta (2 * pi * f1) rho c (min (Suc b - 1) 4) P' None = Inr (Some x)"
      using keep [of b] Suc.hyps fx by simp
    have all: "\<exists>y. forcing beta (2 * pi * f1) rho c (min h 4) P' None = Inr (Some y)
                 \<and> P' ! h = mvp_volume_potential ops y
                               (circ_op ops r L M N (k2 f1 c alpha0 eta h))
                               (\<lambda>v. True) (\<lambda>v. 1)"
      if h: "1 \<le> h \<and> h < Suc b" for h
    proof (cases "h = b")
      case True
      then show ?thesis
        using keep [of b] Suc.hyps fx bl by (auto simp: P'_def)
    next
      case False
      then have hb: "1 \<le> h \<and> h < b"
        using h by simp
      then obtain y where "forcing beta (2 * pi * f1) rho c (min h 4) P None = Inr (Some y)"
          "P ! h = mvp_volume_potential ops y (circ_op ops r L M N (k2 f1 c alpha0 eta h))
                     (\<lambda>v. True) (\<lambda>v. 1)"
        using sofar by blast
      then show ?thesis
        using keep [of h] hb False by (auto simp: P'_def)
    qed
    have "length P' = length P0" "P' ! 0 = P0 ! 0"
      using lP P0 Suc.hyps by (simp_all add: P'_def)
    with run' new all show
      "\<exists>P xIn. harmonic_loop ops r L M N c rho alpha0 eta beta f1 [1..<Suc b] (P0, None, [])
                 = Inr (P, xIn, map (k2 f1 c alpha0 eta) [1..<Suc b])
             \<and> length P = length P0 \<and> P ! 0 = P0 ! 0
             \<and> (Suc b = 1 \<or> forcing beta (2 * pi * f1) rho c (min (Suc b - 1) 4) P None
                               = Inr xIn)
             \<and> (\<forall>h. 1 \<le> h \<and> h < Suc b \<longrightarrow>
                   (\<exists>x. forcing beta (2 * pi * f1) rho c (min h 4) P None = Inr (Some x)
                       \<and> P ! h = mvp_volume_potential ops x
                                   (circ_op ops r L M N (k2 f1 c alpha0 eta h))
                                   (\<lambda>v. True) (\<lambda>v. 1)))"
      by blast
  qed
qed

lemma harmonic_cascade_run:
  assumes "c \<noteq> 0" and "rho \<noteq> 0" and "1 \<le> n_harm"
  shows "\<exists>P xIn. harmonic_cascade ops r L M N c rho alpha0 eta beta f1 n_harm p
                   = Inr (P, xIn, map (k2 f1 c alpha0 eta) [1..<n_harm])
              \<and> length P = n_harm \<and> P ! 0 = p
              \<and> (\<forall>h. 1 \<le> h \<and> h < n_harm \<longrightarrow>
                    (\<exists>x. forcing beta (2 * pi * f1) rho c (min h 4) P None = Inr (Some x)
                        \<and> P ! h = mvp_volume_potential ops x
                                    (circ_op ops r L M N (k2 f1 c alpha0 eta h))
                                    (\<lambda>v. True) (\<lambda>v. 1)))"
proof -
  define P0 where "P0 = (replicate n_harm (\<lambda>v. 0 :: complex)) [0 := p]"
  have l: "n_harm \<le> length P0" "length P0 = n_harm" "P0 ! 0 = p"
    using assms(3) by (simp_all add: P0_def)
  have start: "harmonic_cascade ops r L M N c rho alpha0 eta beta f1 n_harm p
                 = harmonic_loop ops r L M N c rho alpha0 eta beta f1 [1..<n_harm] (P0, None, [])"
    using assms(3) by (simp add: harmonic_cascade_def setitem_def P0_def)
  show ?thesis
    using harmonic_loop_invariant [OF assms, where ?P0.0 = P0 and ops = ops and r = r and L = L
            and M = M and N = N and ?alpha0.0 = alpha0 and eta = eta and beta = beta
            and ?f1.0 = f1] l
    unfolding start by auto
qed

lemma k2_parts:
  "k2 f1 c alpha0 eta h
     = Complex (2 * pi * ((real h + 1) * f1) / c)
               (alpha0 * ((real h + 1) * f1 * 0.000001) ^ eta)"
  by (simp add: k2_def attenuation_def complex_eq_iff)

lemma k2_distinct:
  assumes "c \<noteq> 0" and "f1 \<noteq> 0"
  shows "distinct (map (k2 f1 c alpha0 eta) [1..<n])"
proof -
  have "inj (k2 f1 c alpha0 eta)"
  proof (rule injI)
    fix h h' :: nat
    assume "k2 f1 c alpha0 eta h = k2 f1 c alpha0 eta h'"
    then have "2 * pi * ((real h + 1) * f1) / c = 2 * pi * ((real h' + 1) * f1) / c"
      unfolding k2_parts by simp
    then show "h = h'"
      using assms by simp
  qed
  then show ?thesis
    by (simp add: distinct_map inj_on_def)
qed

text \<open>
  C7. For a sound speed and a density that are not zero the cascade returns. It
  assembles and embeds one operator per harmonic index \<open>h\<close> from 1 below \<open>n_harm\<close>, in
  this order, at the wavenumber \<open>k2\<close> of that index: real part
  \<open>2 pi f / c\<close> and imaginary part \<open>alpha0 (f 10\<^sup>-\<^sup>6)\<^sup>e\<^sup>t\<^sup>a\<close> with
  \<open>f = (h + 1) f1\<close>. Harmonic \<open>h\<close> is the volume-potential product of its forcing
  field with the operator embedded from the kernel at its own wavenumber, with the mask
  all true and the contrast all one; for a nonzero \<open>f1\<close> the wavenumbers of different
  harmonics differ.
\<close>

theorem cascade_own_operator:
  assumes "c \<noteq> 0" and "rho \<noteq> 0" and "1 \<le> n_harm"
  shows "\<exists>P xIn. harmonic_cascade ops r L M N c rho alpha0 eta beta f1 n_harm p
                   = Inr (P, xIn, map (k2 f1 c alpha0 eta) [1..<n_harm])
              \<and> (\<forall>h. 1 \<le> h \<and> h < n_harm \<longrightarrow>
                    k2 f1 c alpha0 eta h
                      = Complex (2 * pi * ((real h + 1) * f1) / c)
                                (alpha0 * ((real h + 1) * f1 * 0.000001) ^ eta)
                    \<and> (\<exists>x. forcing beta (2 * pi * f1) rho c (min h 4) P None = Inr (Some x)
                          \<and> P ! h = mvp_volume_potential ops x
                                      (circulant_embed_fftw ops
                                         (volume_potential ops (k2 f1 c alpha0 eta h) r) L M N)
                                      (\<lambda>v. True) (\<lambda>v. 1)))
              \<and> (f1 \<noteq> 0 \<longrightarrow> distinct (map (k2 f1 c alpha0 eta) [1..<n_harm]))"
  using harmonic_cascade_run [OF assms, where ops = ops and r = r and L = L and M = M and N = N
          and ?alpha0.0 = alpha0 and eta = eta and beta = beta and ?f1.0 = f1 and p = p]
        k2_distinct [OF assms(1), of f1 alpha0 eta n_harm]
  unfolding circ_op_def
  by (auto simp: k2_parts)

lemma forcing_second:
  assumes "forcing beta omega rho c 1 P xIn = Inr (Some x)" and "1 < length P"
  shows "x = (\<lambda>v. of_real (- 2 * beta * omega\<^sup>2 / (rho * c ^ 4)) * (P ! 0) v * (P ! 0) v)"
  using assms
  by (auto simp: forcing_def coefficient_def getitem_def scale_def times_field_def
           split: if_splits)

lemma forcing_third:
  assumes "forcing beta omega rho c 2 P xIn = Inr (Some x)" and "2 < length P"
  shows "x = (\<lambda>v. of_real (- 9 * beta * omega\<^sup>2 / (rho * c ^ 4)) * (P ! 0) v * (P ! 1) v)"
  using assms
  by (auto simp: forcing_def coefficient_def getitem_def scale_def times_field_def
           split: if_splits)

lemma forcing_fourth:
  assumes "forcing beta omega rho c 3 P xIn = Inr (Some x)" and "3 < length P"
  shows "x = (\<lambda>v. of_real (- 8 * beta * omega\<^sup>2 / (rho * c ^ 4))
                    * ((P ! 1) v * (P ! 1) v + of_real 2 * (P ! 0) v * (P ! 2) v))"
  using assms
  by (auto simp: forcing_def coefficient_def getitem_def scale_def times_field_def
                 plus_field_def
           split: if_splits)

lemma forcing_fifth:
  assumes "forcing beta omega rho c 4 P xIn = Inr (Some x)" and "4 < length P"
  shows "x = (\<lambda>v. of_real (- 25 * beta * omega\<^sup>2 / (rho * c ^ 4))
                    * ((P ! 0) v * (P ! 3) v + (P ! 1) v * (P ! 2) v))"
  using assms
  by (auto simp: forcing_def coefficient_def getitem_def scale_def times_field_def
                 plus_field_def
           split: if_splits)

text \<open>
  C2. For every harmonic index \<open>h\<close> from 1 below \<open>n_harm\<close>, the field handed to the
  volume-potential product is the forcing \<open>x\<close> that the chain of tests computes, and
  every stack that agrees with the final one below index \<open>h\<close> gives the same forcing:
  it reads harmonics of strictly lower index only. It is the constant
  \<open>m beta omega\<^sup>2 / (rho c\<^sup>4)\<close> times \<open>P0 P0\<close> for the second harmonic
  (\<open>m = -2\<close>), \<open>P0 P1\<close> for the third (\<open>m = -9\<close>), \<open>P1 P1 + 2 P0 P2\<close> for the
  fourth (\<open>m = -8\<close>) and \<open>P0 P3 + P1 P2\<close> for the fifth (\<open>m = -25\<close>); above that
  the script has no branch and the forcing of index 4 is fed again.
\<close>

theorem cascade_forward_dependency:
  assumes "c \<noteq> 0" and "rho \<noteq> 0" and "1 \<le> n_harm"
  shows "\<exists>P xIn built.
           harmonic_cascade ops r L M N c rho alpha0 eta beta f1 n_harm p = Inr (P, xIn, built)
         \<and> length P = n_harm \<and> P ! 0 = p
         \<and> (\<forall>h. 1 \<le> h \<and> h < n_harm \<longrightarrow>
               (\<exists>x. P ! h = mvp_volume_potential ops x
                              (circulant_embed_fftw ops
                                 (volume_potential ops (k2 f1 c alpha0 eta h) r) L M N)
                              (\<lambda>v. True) (\<lambda>v. 1)
                   \<and> (\<forall>Q xIn'. length Q = length P \<and> (\<forall>j<h. Q ! j = P ! j)
                         \<longrightarrow> forcing beta (2 * pi * f1) rho c (min h 4) Q xIn' = Inr (Some x))
                   \<and> (h = 1 \<longrightarrow>
                        x = (\<lambda>v. of_real (- 2 * beta * (2 * pi * f1)\<^sup>2 / (rho * c ^ 4))
                                   * (P ! 0) v * (P ! 0) v))
                   \<and> (h = 2 \<longrightarrow>
                        x = (\<lambda>v. of_real (- 9 * beta * (2 * pi * f1)\<^sup>2 / (rho * c ^ 4))
                                   * (P ! 0) v * (P ! 1) v))
                   \<and> (h = 3 \<longrightarrow>
                        x = (\<lambda>v. of_real (- 8 * beta * (2 * pi * f1)\<^sup>2 / (rho * c ^ 4))
                                   * ((P ! 1) v * (P ! 1) v
                                      + of_real 2 * (P ! 0) v * (P ! 2) v)))
                   \<and> (h = 4 \<longrightarrow>
                        x = (\<lambda>v. of_real (- 25 * beta * (2 * pi * f1)\<^sup>2 / (rho * c ^ 4))
                                   * ((P ! 0) v * (P ! 3) v + (P ! 1) v * (P ! 2) v)))))"
proof -
  obtain P xIn where
    run: "harmonic_cascade ops r L M N c rho alpha0 eta beta f1 n_harm p
            = Inr (P, xIn, map (k2 f1 c alpha0 eta) [1..<n_harm])"
    and len: "length P = n_harm" and fund: "P ! 0 = p"
    and each: "\<forall>h. 1 \<le> h \<and> h < n_harm \<longrightarrow>
                 (\<exists>x. forcing beta (2 * pi * f1) rho c (min h 4) P None = Inr (Some x)
                     \<and> P ! h = mvp_volume_potential ops x
                                 (circ_op ops r L M N (k2 f1 c alpha0 eta h))
                                 (\<lambda>v. True) (\<lambda>v. 1))"
    using harmonic_cascade_run [OF assms, where ops = ops and r = r and L = L and M = M
            and N = N and ?alpha0.0 = alpha0 and eta = eta and beta = beta and ?f1.0 = f1
            and p = p]
    by blast
  have "\<exists>x. P ! h = mvp_volume_potential ops x
                      (circulant_embed_fftw ops
                         (volume_potential ops (k2 f1 c alpha0 eta h) r) L M N)
                      (\<lambda>v. True) (\<lambda>v. 1)
           \<and> (\<forall>Q xIn'. length Q = length P \<and> (\<forall>j<h. Q ! j = P ! j)
                 \<longrightarrow> forcing beta (2 * pi * f1) rho c (min h 4) Q xIn' = Inr (Some x))
           \<and> (h = 1 \<longrightarrow>
                x = (\<lambda>v. of_real (- 2 * beta * (2 * pi * f1)\<^sup>2 / (rho * c ^ 4))
                           * (P ! 0) v * (P ! 0) v))
           \<and> (h = 2 \<longrightarrow>
                x = (\<lambda>v. of_real (- 9 * beta * (2 * pi * f1)\<^sup>2 / (rho * c ^ 4))
                           * (P ! 0) v * (P ! 1) v))
           \<and> (h = 3 \<longrightarrow>
                x = (\<lambda>v. of_real (- 8 * beta * (2 * pi * f1)\<^sup>2 / (rho * c ^ 4))
                           * ((P ! 1) v * (P ! 1) v + of_real 2 * (P ! 0) v * (P ! 2) v)))
           \<and> (h = 4 \<longrightarrow>
                x = (\<lambda>v. of_real (- 25 * beta * (2 * pi * f1)\<^sup>2 / (rho * c ^ 4))
                           * ((P ! 0) v * (P ! 3) v + (P ! 1) v * (P ! 2) v)))"
    if h: "1 \<le> h \<and> h < n_harm" for h
  proof -
    obtain x where
      fx: "forcing beta (2 * pi * f1) rho c (min h 4) P None = Inr (Some x)"
      and Ph: "P ! h = mvp_volume_potential ops x
                         (circ_op ops r L M N (k2 f1 c alpha0 eta h)) (\<lambda>v. True) (\<lambda>v. 1)"
      using each h by blast
    have loc: "forcing beta (2 * pi * f1) rho c (min h 4) Q xIn' = Inr (Some x)"
      if "length Q = length P \<and> (\<forall>j<h. Q ! j = P ! j)" for Q xIn'
    proof -
      have "forcing beta (2 * pi * f1) rho c (min h 4) Q xIn'
              = forcing beta (2 * pi * f1) rho c (min h 4) P None"
        using that h by (intro forcing_local) simp_all
      then show ?thesis
        using fx by simp
    qed
    have e1: "h = 1 \<longrightarrow>
                x = (\<lambda>v. of_real (- 2 * beta * (2 * pi * f1)\<^sup>2 / (rho * c ^ 4))
                           * (P ! 0) v * (P ! 0) v)"
    proof
      assume "h = 1"
      then have "forcing beta (2 * pi * f1) rho c 1 P None = Inr (Some x)" "1 < length P"
        using fx h len by simp_all
      then show "x = (\<lambda>v. of_real (- 2 * beta * (2 * pi * f1)\<^sup>2 / (rho * c ^ 4))
                           * (P ! 0) v * (P ! 0) v)"
        by (rule forcing_second)
    qed
    have e2: "h = 2 \<longrightarrow>
                x = (\<lambda>v. of_real (- 9 * beta * (2 * pi * f1)\<^sup>2 / (rho * c ^ 4))
                           * (P ! 0) v * (P ! 1) v)"
    proof
      assume "h = 2"
      then have "forcing beta (2 * pi * f1) rho c 2 P None = Inr (Some x)" "2 < length P"
        using fx h len by simp_all
      then show "x = (\<lambda>v. of_real (- 9 * beta * (2 * pi * f1)\<^sup>2 / (rho * c ^ 4))
                           * (P ! 0) v * (P ! 1) v)"
        by (rule forcing_third)
    qed
    have e3: "h = 3 \<longrightarrow>
                x = (\<lambda>v. of_real (- 8 * beta * (2 * pi * f1)\<^sup>2 / (rho * c ^ 4))
                           * ((P ! 1) v * (P ! 1) v + of_real 2 * (P ! 0) v * (P ! 2) v))"
    proof
      assume "h = 3"
      then have "forcing beta (2 * pi * f1) rho c 3 P None = Inr (Some x)" "3 < length P"
        using fx h len by simp_all
      then show "x = (\<lambda>v. of_real (- 8 * beta * (2 * pi * f1)\<^sup>2 / (rho * c ^ 4))
                           * ((P ! 1) v * (P ! 1) v + of_real 2 * (P ! 0) v * (P ! 2) v))"
        by (rule forcing_fourth)
    qed
    have e4: "h = 4 \<longrightarrow>
                x = (\<lambda>v. of_real (- 25 * beta * (2 * pi * f1)\<^sup>2 / (rho * c ^ 4))
                           * ((P ! 0) v * (P ! 3) v + (P ! 1) v * (P ! 2) v))"
    proof
      assume "h = 4"
      then have "forcing beta (2 * pi * f1) rho c 4 P None = Inr (Some x)" "4 < length P"
        using fx h len by simp_all
      then show "x = (\<lambda>v. of_real (- 25 * beta * (2 * pi * f1)\<^sup>2 / (rho * c ^ 4))
                           * ((P ! 0) v * (P ! 3) v + (P ! 1) v * (P ! 2) v))"
        by (rule forcing_fifth)
    qed
    show ?thesis
      using Ph loc e1 e2 e3 e4 unfolding circ_op_def by blast
  qed
  with run len fund show ?thesis
    by blast
qed

theorem cascade_own_operator_witness:
  "(1487::real) \<noteq> 0 \<and> (998::real) \<noteq> 0 \<and> (1::nat) \<le> 2
   \<and> (\<exists>P xIn x.
         harmonic_cascade
           \<lparr>volume_potential = (\<lambda>k (r::unit). k),
            circulant_embed_fftw = (\<lambda>t L M N. t),
            mvp_volume_potential = (\<lambda>x e idx Mr v. e * x v)\<rparr>
           () 4 4 4 1487 998 (217 / 1000) 2 (7 / 2) 1100000 2 (\<lambda>v. 1)
           = Inr (P, xIn, map (k2 1100000 1487 (217 / 1000) 2) [1..<2])
       \<and> P ! 1 = (\<lambda>v. k2 1100000 1487 (217 / 1000) 2 1 * x v))"
proof -
  have h: "(1487::real) \<noteq> 0" "(998::real) \<noteq> 0" "(1::nat) \<le> 2"
    by simp_all
  define ops :: "(unit, complex, complex) operators" where
    "ops = \<lparr>volume_potential = (\<lambda>k (r::unit). k),
            circulant_embed_fftw = (\<lambda>t L M N. t),
            mvp_volume_potential = (\<lambda>x e idx Mr v. e * x v)\<rparr>"
  obtain P xIn where
    run: "harmonic_cascade ops () 4 4 4 1487 998 (217 / 1000) 2 (7 / 2) 1100000 2 (\<lambda>v. 1)
            = Inr (P, xIn, map (k2 1100000 1487 (217 / 1000) 2) [1..<2])"
    and each: "\<forall>h. 1 \<le> h \<and> h < 2 \<longrightarrow>
                 k2 1100000 1487 (217 / 1000) 2 h
                   = Complex (2 * pi * ((real h + 1) * 1100000) / 1487)
                             (217 / 1000 * ((real h + 1) * 1100000 * 0.000001) ^ 2)
                 \<and> (\<exists>x. forcing (7 / 2) (2 * pi * 1100000) 998 1487 (min h 4) P None
                           = Inr (Some x)
                       \<and> P ! h = mvp_volume_potential ops x
                                   (circulant_embed_fftw ops
                                      (volume_potential ops
                                         (k2 1100000 1487 (217 / 1000) 2 h) ()) 4 4 4)
                                   (\<lambda>v. True) (\<lambda>v. 1))"
    using cascade_own_operator [OF h, where ops = ops and r = "()" and L = 4 and M = 4
            and N = 4 and ?alpha0.0 = "217 / 1000" and eta = 2 and beta = "7 / 2"
            and ?f1.0 = 1100000 and p = "\<lambda>v. 1"]
    by blast
  have "(1::nat) \<le> 1 \<and> (1::nat) < 2"
    by simp
  from each [THEN spec, THEN mp, OF this] obtain x where
    "P ! 1 = mvp_volume_potential ops x
               (circulant_embed_fftw ops
                  (volume_potential ops (k2 1100000 1487 (217 / 1000) 2 1) ()) 4 4 4)
               (\<lambda>v. True) (\<lambda>v. 1)"
    by blast
  then have "P ! 1 = (\<lambda>v. k2 1100000 1487 (217 / 1000) 2 1 * x v)"
    unfolding ops_def by (simp only: operators.select_convs)
  with run h show ?thesis
    unfolding ops_def by blast
qed

theorem cascade_forward_dependency_witness:
  "(1487::real) \<noteq> 0 \<and> (998::real) \<noteq> 0 \<and> (1::nat) \<le> 3
   \<and> (\<exists>P xIn built.
         harmonic_cascade
           \<lparr>volume_potential = (\<lambda>k (r::unit). k),
            circulant_embed_fftw = (\<lambda>t L M N. t),
            mvp_volume_potential = (\<lambda>x e idx Mr v. e * x v)\<rparr>
           () 4 4 4 1487 998 (217 / 1000) 2 (7 / 2) 1100000 3 (\<lambda>v. 1)
           = Inr (P, xIn, built)
       \<and> length P = 3 \<and> P ! 0 = (\<lambda>v. 1)
       \<and> P ! 2 = (\<lambda>v. k2 1100000 1487 (217 / 1000) 2 2
                        * (of_real (- 9 * (7 / 2) * (2 * pi * 1100000)\<^sup>2 / (998 * 1487 ^ 4))
                           * (P ! 0) v * (P ! 1) v)))"
proof -
  have h: "(1487::real) \<noteq> 0" "(998::real) \<noteq> 0" "(1::nat) \<le> 3"
    by simp_all
  define ops :: "(unit, complex, complex) operators" where
    "ops = \<lparr>volume_potential = (\<lambda>k (r::unit). k),
            circulant_embed_fftw = (\<lambda>t L M N. t),
            mvp_volume_potential = (\<lambda>x e idx Mr v. e * x v)\<rparr>"
  obtain P xIn built where
    run: "harmonic_cascade ops () 4 4 4 1487 998 (217 / 1000) 2 (7 / 2) 1100000 3 (\<lambda>v. 1)
            = Inr (P, xIn, built)"
    and len: "length P = 3" and fund: "P ! 0 = (\<lambda>v. 1)"
    and each: "\<forall>h. 1 \<le> h \<and> h < 3 \<longrightarrow>
       (\<exists>x. P ! h = mvp_volume_potential ops x
                      (circulant_embed_fftw ops
                         (volume_potential ops (k2 1100000 1487 (217 / 1000) 2 h) ()) 4 4 4)
                      (\<lambda>v. True) (\<lambda>v. 1)
           \<and> (\<forall>Q xIn'. length Q = length P \<and> (\<forall>j<h. Q ! j = P ! j)
                 \<longrightarrow> forcing (7 / 2) (2 * pi * 1100000) 998 1487 (min h 4) Q xIn'
                       = Inr (Some x))
           \<and> (h = 1 \<longrightarrow>
                x = (\<lambda>v. of_real (- 2 * (7 / 2) * (2 * pi * 1100000)\<^sup>2 / (998 * 1487 ^ 4))
                           * (P ! 0) v * (P ! 0) v))
           \<and> (h = 2 \<longrightarrow>
                x = (\<lambda>v. of_real (- 9 * (7 / 2) * (2 * pi * 1100000)\<^sup>2 / (998 * 1487 ^ 4))
                           * (P ! 0) v * (P ! 1) v))
           \<and> (h = 3 \<longrightarrow>
                x = (\<lambda>v. of_real (- 8 * (7 / 2) * (2 * pi * 1100000)\<^sup>2 / (998 * 1487 ^ 4))
                           * ((P ! 1) v * (P ! 1) v + of_real 2 * (P ! 0) v * (P ! 2) v)))
           \<and> (h = 4 \<longrightarrow>
                x = (\<lambda>v. of_real (- 25 * (7 / 2) * (2 * pi * 1100000)\<^sup>2 / (998 * 1487 ^ 4))
                           * ((P ! 0) v * (P ! 3) v + (P ! 1) v * (P ! 2) v))))"
    using cascade_forward_dependency [OF h, where ops = ops and r = "()" and L = 4 and M = 4
            and N = 4 and ?alpha0.0 = "217 / 1000" and eta = 2 and beta = "7 / 2"
            and ?f1.0 = 1100000 and p = "\<lambda>v. 1"]
    by blast
  have "(1::nat) \<le> 2 \<and> (2::nat) < 3"
    by simp
  from each [THEN spec, THEN mp, OF this] obtain x where
      "P ! 2 = mvp_volume_potential ops x
                 (circulant_embed_fftw ops
                    (volume_potential ops (k2 1100000 1487 (217 / 1000) 2 2) ()) 4 4 4)
                 (\<lambda>v. True) (\<lambda>v. 1)"
      "x = (\<lambda>v. of_real (- 9 * (7 / 2) * (2 * pi * 1100000)\<^sup>2 / (998 * 1487 ^ 4))
                 * (P ! 0) v * (P ! 1) v)"
    by blast
  then have "P ! 2 = (\<lambda>v. k2 1100000 1487 (217 / 1000) 2 2
                          * (of_real (- 9 * (7 / 2) * (2 * pi * 1100000)\<^sup>2 / (998 * 1487 ^ 4))
                             * (P ! 0) v * (P ! 1) v))"
    unfolding ops_def by (simp only: operators.select_convs)
  with run len fund h show ?thesis
    unfolding ops_def by blast
qed

end
